theory Spec2Isabelle
  imports Main "HOL-Library.Multiset"
begin

section \<open>The diary of \<^verbatim>\<open>Enhanced Training/script.js\<close>\<close>

text \<open>
  The diary part of the script (lines 45 to 152) keeps an array \<^verbatim>\<open>diaryEntries\<close> in
  memory, writes it to \<^verbatim>\<open>localStorage\<close> as JSON text under one key and renders it
  into the list element \<^verbatim>\<open>diaryList\<close>. The embedding below follows the script function
  by function. Values that come from the browser and not from the script (the JSON
  codec, the \<^verbatim>\<open>Date\<close> constructor, the locale formatting) are fields of a
  \<open>platform\<close> record that every function takes as its first argument.

  The form, the clear button and the list element are taken to exist, so that the three
  handlers are registered. The default value that lines 100 to 102 give to the date
  field, the tabs, the check list and the background effect of the same file, and the
  other script of the repository do not touch the diary and are left out.
\<close>

subsection \<open>JavaScript values that the diary handles\<close>

text \<open>
  The result of \<^verbatim>\<open>JSON.parse\<close>. A number is carried as its literal: the diary never
  computes with one. An object is the list of its properties in insertion order.
\<close>

datatype json =
    JNull
  | JBool bool
  | JNum string
  | JStr string
  | JArr "json list"
  | JObj "(string \<times> json) list"

text \<open>
  The object literal of lines 116 to 121: \<^verbatim>\<open>{ id, date, focus, text }\<close>, four strings.
\<close>

record entry =
  entry_id :: string
  entry_date :: string
  entry_focus :: string
  entry_text :: string

definition entry_json :: "entry \<Rightarrow> json" where
  "entry_json e = JObj [(''id'', JStr (entry_id e)), (''date'', JStr (entry_date e)),
                        (''focus'', JStr (entry_focus e)), (''text'', JStr (entry_text e))]"

definition entries_json :: "entry list \<Rightarrow> json" where
  "entries_json es = JArr (map entry_json es)"

text \<open>
  The typed reading of a parsed value: defined exactly on the arrays of objects that the
  literal of lines 116 to 121 produces.
\<close>

fun json_entry :: "json \<Rightarrow> entry option" where
  "json_entry (JObj [(k1, JStr i), (k2, JStr d), (k3, JStr f), (k4, JStr t)]) =
     (if k1 = ''id'' \<and> k2 = ''date'' \<and> k3 = ''focus'' \<and> k4 = ''text''
      then Some \<lparr>entry_id = i, entry_date = d, entry_focus = f, entry_text = t\<rparr>
      else None)"
| "json_entry _ = None"

fun json_entry_list :: "json list \<Rightarrow> entry list option" where
  "json_entry_list [] = Some []"
| "json_entry_list (v # vs) =
     (case json_entry v of
        None \<Rightarrow> None
      | Some e \<Rightarrow> (case json_entry_list vs of None \<Rightarrow> None | Some es \<Rightarrow> Some (e # es)))"

fun json_entries :: "json \<Rightarrow> entry list option" where
  "json_entries (JArr vs) = json_entry_list vs"
| "json_entries _ = None"

subsection \<open>The browser\<close>

text \<open>
  \<open>JSON_parse\<close> returns \<open>None\<close> where \<^verbatim>\<open>JSON.parse\<close> throws a SyntaxError.
  \<open>Date_time s\<close> is the time value of \<^verbatim>\<open>new Date(s)\<close> in milliseconds, \<open>None\<close> for
  an invalid date (whose time value is NaN). \<open>toLocaleDateString\<close> is the formatting of
  lines 82 to 86 applied to \<^verbatim>\<open>new Date(s)\<close>.
\<close>

record platform =
  JSON_parse :: "string \<Rightarrow> json option"
  JSON_stringify :: "json \<Rightarrow> string"
  Date_time :: "string \<Rightarrow> int option"
  toLocaleDateString :: "string \<Rightarrow> string"

text \<open>
  \<^verbatim>\<open>String.prototype.trim\<close> removes white space and line terminators at both ends.
  Over 8-bit characters these are TAB, LF, VT, FF, CR, SP and NBSP.
\<close>

definition is_white_space :: "char \<Rightarrow> bool" where
  "is_white_space c = (of_char c \<in> {9::nat, 10, 11, 12, 13, 32, 160})"

definition trim :: "string \<Rightarrow> string" where
  "trim s = rev (dropWhile is_white_space (rev (dropWhile is_white_space s)))"

text \<open>
  \<^verbatim>\<open>Array.prototype.sort(comparefn)\<close>: a comparison that yields NaN counts as \<open>0\<close>,
  and the sort is stable. \<open>insert_by\<close> puts an element in front of the elements that
  followed it in the array, behind those it compares greater than. For a comparison
  function that orders the elements consistently this is the one result that a stable
  sort can have. For the others (here: when a date is invalid) ECMAScript leaves the
  order to the implementation, and an engine can leave another order than this
  insertion; what the properties below say of the order of a sorted array, they say
  of arrays whose dates are all valid, and of the others only what holds of every
  rearrangement.
\<close>

fun insert_by :: "('a \<Rightarrow> 'a \<Rightarrow> int option) \<Rightarrow> 'a \<Rightarrow> 'a list \<Rightarrow> 'a list" where
  "insert_by cmp x [] = [x]"
| "insert_by cmp x (y # ys) =
     (if (case cmp x y of None \<Rightarrow> 0 | Some v \<Rightarrow> v) > 0
      then y # insert_by cmp x ys
      else x # y # ys)"

definition Array_sort :: "('a \<Rightarrow> 'a \<Rightarrow> int option) \<Rightarrow> 'a list \<Rightarrow> 'a list" where
  "Array_sort cmp xs = foldr (insert_by cmp) xs []"

text \<open>
  The first index whose element satisfies the predicate; \<open>None\<close> is the \<open>-1\<close> of
  \<^verbatim>\<open>findIndex\<close>.
\<close>

fun findIndex :: "('a \<Rightarrow> bool) \<Rightarrow> 'a list \<Rightarrow> nat option" where
  "findIndex p [] = None"
| "findIndex p (x # xs) =
     (if p x then Some 0 else (case findIndex p xs of None \<Rightarrow> None | Some i \<Rightarrow> Some (Suc i)))"

text \<open>\<^verbatim>\<open>xs.splice(index, 1)\<close>, for its effect on the array.\<close>

definition splice1 :: "nat \<Rightarrow> 'a list \<Rightarrow> 'a list" where
  "splice1 i xs = take i xs @ drop (Suc i) xs"

subsection \<open>The page state\<close>

text \<open>
  What the handlers do besides changing the array, the storage and the list element,
  in the order in which they do it.
\<close>

datatype effect =
    Console_warn string
  | Prevent_default
  | Report_validity
  | Form_reset
  | Set_date_input string

text \<open>
  A child of \<^verbatim>\<open>diaryList\<close>: the placeholder of line 71, or the item of lines 78 to 92
  with the four values its template interpolates (formatted date, focus, text with
  \<^verbatim>\<open><br />\<close> for line feeds, and the id on the Remove button).
\<close>

datatype li =
    Diary_empty string
  | Diary_entry string string string string

record state =
  storage :: "string \<rightharpoonup> string"
  diaryEntries :: "entry list"
  diaryList :: "li list"
  effects :: "effect list"

definition diaryStorageKey :: string where
  "diaryStorageKey = ''puppy-enhanced-diary-entries''"

definition empty_message :: string where
  "empty_message = ''No entries yet. Start recording today's milestones!''"

subsection \<open>Loading and saving (lines 53 to 66)\<close>

text \<open>
  \<^verbatim>\<open>raw ? JSON.parse(raw) : []\<close>: \<^verbatim>\<open>null\<close> (no such key) and the empty string are
  falsy. Only \<^verbatim>\<open>JSON.parse\<close> can throw inside the \<^verbatim>\<open>try\<close>; the \<^verbatim>\<open>catch\<close> warns,
  removes the key and returns an empty array.
\<close>

definition loadDiaryEntries :: "platform \<Rightarrow> state \<Rightarrow> json \<times> state" where
  "loadDiaryEntries P s =
     (case storage s diaryStorageKey of
        None \<Rightarrow> (JArr [], s)
      | Some raw \<Rightarrow>
          if raw = [] then (JArr [], s)
          else (case JSON_parse P raw of
                  Some v \<Rightarrow> (v, s)
                | None \<Rightarrow>
                    (JArr [],
                     s\<lparr>storage := (storage s)(diaryStorageKey := None),
                       effects := effects s @
                         [Console_warn ''Unable to parse diary entries, resetting storage.'']\<rparr>)))"

definition saveDiaryEntries :: "platform \<Rightarrow> entry list \<Rightarrow> state \<Rightarrow> state" where
  "saveDiaryEntries P entries s =
     s\<lparr>storage := (storage s)(diaryStorageKey \<mapsto> JSON_stringify P (entries_json entries))\<rparr>"

subsection \<open>Rendering (lines 68 to 94)\<close>

text \<open>The comparison function of line 76; the difference of two dates is NaN when one is invalid.\<close>

definition compareFn :: "platform \<Rightarrow> entry \<Rightarrow> entry \<Rightarrow> int option" where
  "compareFn P a b =
     (case (Date_time P (entry_date b), Date_time P (entry_date a)) of
        (Some tb, Some ta) \<Rightarrow> Some (tb - ta)
      | _ \<Rightarrow> None)"

definition replace_newlines :: "string \<Rightarrow> string" where
  "replace_newlines s = concat (map (\<lambda>c. if c = CHR 0x0A then ''<br />'' else [c]) s)"

definition entry_li :: "platform \<Rightarrow> entry \<Rightarrow> li" where
  "entry_li P e =
     Diary_entry (toLocaleDateString P (entry_date e)) (entry_focus e)
                 (replace_newlines (entry_text e)) (entry_id e)"

text \<open>
  \<^verbatim>\<open>renderDiary(entries)\<close> returns the array it was given, which \<^verbatim>\<open>sort\<close> reorders in
  place, and the new children of \<^verbatim>\<open>diaryList\<close>. Every call of the script passes
  \<^verbatim>\<open>diaryEntries\<close>, so the caller stores the first component back into the state.
\<close>

definition renderDiary :: "platform \<Rightarrow> entry list \<Rightarrow> entry list \<times> li list" where
  "renderDiary P entries =
     (if entries = [] then (entries, [Diary_empty empty_message])
      else (let sorted_entries = Array_sort (compareFn P) entries
            in (sorted_entries, map (entry_li P) sorted_entries)))"

definition render :: "platform \<Rightarrow> state \<Rightarrow> state" where
  "render P s =
     (case renderDiary P (diaryEntries s) of
        (entries, items) \<Rightarrow> s\<lparr>diaryEntries := entries, diaryList := items\<rparr>)"

subsection \<open>Page load (lines 96 and 97) and the three handlers (lines 104 to 152)\<close>

text \<open>
  The state after the top level of the script has run on a given storage:
  \<^verbatim>\<open>diaryEntries\<close> is bound to what \<^verbatim>\<open>loadDiaryEntries\<close> returns and is rendered. The
  result is \<open>None\<close> when the loaded value is not an array of entries: the rendering and
  the handlers are modelled on arrays of entries only.
\<close>

definition page_load :: "platform \<Rightarrow> (string \<rightharpoonup> string) \<Rightarrow> state option" where
  "page_load P store =
     (case loadDiaryEntries P \<lparr>storage = store, diaryEntries = [], diaryList = [], effects = []\<rparr> of
        (v, s) \<Rightarrow>
          (case json_entries v of
             None \<Rightarrow> None
           | Some es \<Rightarrow> Some (render P (s\<lparr>diaryEntries := es\<rparr>))))"

text \<open>
  The submit handler. \<open>uuid\<close> is what \<^verbatim>\<open>crypto.randomUUID()\<close> returns when it is called;
  \<open>date\<close>, \<open>focus\<close> and \<open>entry\<close> are the values of the three form fields.
\<close>

definition on_submit :: "platform \<Rightarrow> string \<Rightarrow> string \<Rightarrow> string \<Rightarrow> string \<Rightarrow> state \<Rightarrow> state" where
  "on_submit P uuid date focus entry s =
     (let s1 = s\<lparr>effects := effects s @ [Prevent_default]\<rparr>;
          text = trim entry
      in if date = [] \<or> text = [] then s1\<lparr>effects := effects s1 @ [Report_validity]\<rparr>
         else
           (let s2 = s1\<lparr>diaryEntries := diaryEntries s1 @
                         [\<lparr>entry_id = uuid, entry_date = date, entry_focus = focus,
                           entry_text = text\<rparr>]\<rparr>;
                s3 = saveDiaryEntries P (diaryEntries s2) s2;
                s4 = render P s3
            in s4\<lparr>effects := effects s4 @ [Form_reset, Set_date_input date]\<rparr>))"

text \<open>The click on the clear button; \<open>confirmed\<close> is the answer to \<^verbatim>\<open>confirm(...)\<close>.\<close>

definition on_clear :: "platform \<Rightarrow> bool \<Rightarrow> state \<Rightarrow> state" where
  "on_clear P confirmed s =
     (if confirmed
      then (let s1 = s\<lparr>diaryEntries := []\<rparr>;
                s2 = saveDiaryEntries P (diaryEntries s1) s1
            in render P s2)
      else s)"

text \<open>
  The click inside the list; \<open>target\<close> is the \<^verbatim>\<open>data-remove-entry\<close> value of the closest
  button, \<open>None\<close> when the click was not on a Remove button.
\<close>

definition on_list_click :: "platform \<Rightarrow> string option \<Rightarrow> state \<Rightarrow> state" where
  "on_list_click P target s =
     (case target of
        None \<Rightarrow> s
      | Some i \<Rightarrow>
          (case findIndex (\<lambda>e. entry_id e = i) (diaryEntries s) of
             None \<Rightarrow> s
           | Some index \<Rightarrow>
               (let s1 = s\<lparr>diaryEntries := splice1 index (diaryEntries s)\<rparr>;
                    s2 = saveDiaryEntries P (diaryEntries s1) s1
                in render P s2)))"

datatype event =
    Submit string string string string
  | Clear_click bool
  | List_click "string option"

fun handle :: "platform \<Rightarrow> event \<Rightarrow> state \<Rightarrow> state" where
  "handle P (Submit uuid date focus entry) s = on_submit P uuid date focus entry s"
| "handle P (Clear_click confirmed) s = on_clear P confirmed s"
| "handle P (List_click target) s = on_list_click P target s"

fun run_events :: "platform \<Rightarrow> event list \<Rightarrow> state \<Rightarrow> state" where
  "run_events P [] s = s"
| "run_events P (ev # evs) s = run_events P evs (handle P ev s)"

subsection \<open>A reference platform\<close>

text \<open>
  One platform on which the functions above can be run: a JSON codec over 8-bit
  characters and the date-only form \<^verbatim>\<open>YYYY-MM-DD\<close> of date strings, in UTC and formatted
  as the \<^verbatim>\<open>en-US\<close> locale does. The general theorems hold for every platform; this one
  instantiates them. Its limits: a \<^verbatim>\<open>\u\<close> escape above \<^verbatim>\<open>00FF\<close> and a date string in
  another form are outside of it.
\<close>

paragraph \<open>\<^verbatim>\<open>JSON.stringify\<close>: no white space, control characters escaped\<close>

definition quote_char :: char where "quote_char = CHR 0x22"
definition backslash :: char where "backslash = CHR 0x5C"

definition hex_digit :: "nat \<Rightarrow> char" where
  "hex_digit n = (if n < 10 then char_of (48 + n) else char_of (87 + n))"

definition escape_char :: "char \<Rightarrow> string" where
  "escape_char c =
     (if c = quote_char then [backslash, quote_char]
      else if c = backslash then [backslash, backslash]
      else if c = CHR 0x08 then [backslash, CHR ''b'']
      else if c = CHR 0x0C then [backslash, CHR ''f'']
      else if c = CHR 0x0A then [backslash, CHR ''n'']
      else if c = CHR 0x0D then [backslash, CHR ''r'']
      else if c = CHR 0x09 then [backslash, CHR ''t'']
      else if (of_char c :: nat) < 32
        then [backslash, CHR ''u'', CHR ''0'', CHR ''0'',
              hex_digit (of_char c div 16), hex_digit (of_char c mod 16)]
      else [c])"

definition quote :: "string \<Rightarrow> string" where
  "quote s = quote_char # concat (map escape_char s) @ [quote_char]"

fun join_commas :: "string list \<Rightarrow> string" where
  "join_commas [] = []"
| "join_commas [x] = x"
| "join_commas (x # y # ys) = x @ CHR '','' # join_commas (y # ys)"

fun json_stringify :: "json \<Rightarrow> string" where
  "json_stringify JNull = ''null''"
| "json_stringify (JBool b) = (if b then ''true'' else ''false'')"
| "json_stringify (JNum l) = l"
| "json_stringify (JStr s) = quote s"
| "json_stringify (JArr vs) = CHR ''['' # join_commas (map json_stringify vs) @ '']''"
| "json_stringify (JObj ps) =
     CHR ''{'' # join_commas (map (\<lambda>p. quote (fst p) @ CHR '':'' # json_stringify (snd p)) ps) @ ''}''"

paragraph \<open>\<^verbatim>\<open>JSON.parse\<close>: one pass over the text with a stack of open containers\<close>

text \<open>
  A configuration is the stack of the arrays and objects that are open, and what the
  parser is reading or expects next. Assigning a property that an object already has
  replaces its value in place (\<open>set_prop\<close>), as the later of two equal keys does.
\<close>

datatype frame = In_array "json list" | In_object "(string \<times> json) list" string

datatype purpose = As_value | As_key "(string \<times> json) list"

datatype num_state = N_minus | N_zero | N_int | N_dot | N_frac | N_e | N_e_sign | N_exp

datatype mode =
    Want_value
  | Array_first
  | Array_next "json list"
  | Object_first
  | Want_key "(string \<times> json) list"
  | Want_colon "(string \<times> json) list" string
  | Object_next "(string \<times> json) list"
  | Done json
  | In_string purpose string
  | In_escape purpose string
  | In_unicode purpose string "nat list"
  | In_literal string json
  | In_number num_state string

type_synonym config = "frame list \<times> mode"

fun set_prop :: "string \<Rightarrow> json \<Rightarrow> (string \<times> json) list \<Rightarrow> (string \<times> json) list" where
  "set_prop k v [] = [(k, v)]"
| "set_prop k v (p # ps) = (if fst p = k then (k, v) # ps else p # set_prop k v ps)"

fun value_done :: "json \<Rightarrow> frame list \<Rightarrow> config" where
  "value_done v [] = ([], Done v)"
| "value_done v (In_array acc # st) = (st, Array_next (acc @ [v]))"
| "value_done v (In_object acc k # st) = (st, Object_next (set_prop k v acc))"

fun string_done :: "purpose \<Rightarrow> string \<Rightarrow> frame list \<Rightarrow> config" where
  "string_done As_value s st = value_done (JStr s) st"
| "string_done (As_key acc) s st = (st, Want_colon acc s)"

definition is_json_ws :: "char \<Rightarrow> bool" where
  "is_json_ws c = (c = CHR 0x20 \<or> c = CHR 0x09 \<or> c = CHR 0x0A \<or> c = CHR 0x0D)"

definition is_digit :: "char \<Rightarrow> bool" where
  "is_digit c = (48 \<le> (of_char c :: nat) \<and> (of_char c :: nat) \<le> 57)"

definition hex_value :: "char \<Rightarrow> nat option" where
  "hex_value c =
     (let n = (of_char c :: nat)
      in if 48 \<le> n \<and> n \<le> 57 then Some (n - 48)
         else if 97 \<le> n \<and> n \<le> 102 then Some (n - 87)
         else if 65 \<le> n \<and> n \<le> 70 then Some (n - 55)
         else None)"

definition start_value :: "char \<Rightarrow> frame list \<Rightarrow> config option" where
  "start_value c st =
     (if c = quote_char then Some (st, In_string As_value [])
      else if c = CHR ''['' then Some (st, Array_first)
      else if c = CHR ''{'' then Some (st, Object_first)
      else if c = CHR ''t'' then Some (st, In_literal ''rue'' (JBool True))
      else if c = CHR ''f'' then Some (st, In_literal ''alse'' (JBool False))
      else if c = CHR ''n'' then Some (st, In_literal ''ull'' JNull)
      else if c = CHR ''-'' then Some (st, In_number N_minus [c])
      else if c = CHR ''0'' then Some (st, In_number N_zero [c])
      else if is_digit c then Some (st, In_number N_int [c])
      else None)"

definition is_e :: "char \<Rightarrow> bool" where
  "is_e c = (c = CHR ''e'' \<or> c = CHR ''E'')"

fun num_step :: "num_state \<Rightarrow> char \<Rightarrow> num_state option" where
  "num_step N_minus c = (if c = CHR ''0'' then Some N_zero else if is_digit c then Some N_int else None)"
| "num_step N_zero c = (if c = CHR ''.'' then Some N_dot else if is_e c then Some N_e else None)"
| "num_step N_int c =
     (if is_digit c then Some N_int else if c = CHR ''.'' then Some N_dot
      else if is_e c then Some N_e else None)"
| "num_step N_dot c = (if is_digit c then Some N_frac else None)"
| "num_step N_frac c = (if is_digit c then Some N_frac else if is_e c then Some N_e else None)"
| "num_step N_e c =
     (if c = CHR ''+'' \<or> c = CHR ''-'' then Some N_e_sign else if is_digit c then Some N_exp else None)"
| "num_step N_e_sign c = (if is_digit c then Some N_exp else None)"
| "num_step N_exp c = (if is_digit c then Some N_exp else None)"

fun num_complete :: "num_state \<Rightarrow> bool" where
  "num_complete N_zero = True"
| "num_complete N_int = True"
| "num_complete N_frac = True"
| "num_complete N_exp = True"
| "num_complete _ = False"

fun step_plain :: "char \<Rightarrow> config \<Rightarrow> config option" where
  "step_plain c (st, Want_value) = (if is_json_ws c then Some (st, Want_value) else start_value c st)"
| "step_plain c (st, Array_first) =
     (if is_json_ws c then Some (st, Array_first)
      else if c = CHR '']'' then Some (value_done (JArr []) st)
      else start_value c (In_array [] # st))"
| "step_plain c (st, Array_next acc) =
     (if is_json_ws c then Some (st, Array_next acc)
      else if c = CHR '','' then Some (In_array acc # st, Want_value)
      else if c = CHR '']'' then Some (value_done (JArr acc) st)
      else None)"
| "step_plain c (st, Object_first) =
     (if is_json_ws c then Some (st, Object_first)
      else if c = CHR ''}'' then Some (value_done (JObj []) st)
      else if c = quote_char then Some (st, In_string (As_key []) [])
      else None)"
| "step_plain c (st, Want_key acc) =
     (if is_json_ws c then Some (st, Want_key acc)
      else if c = quote_char then Some (st, In_string (As_key acc) [])
      else None)"
| "step_plain c (st, Want_colon acc k) =
     (if is_json_ws c then Some (st, Want_colon acc k)
      else if c = CHR '':'' then Some (In_object acc k # st, Want_value)
      else None)"
| "step_plain c (st, Object_next acc) =
     (if is_json_ws c then Some (st, Object_next acc)
      else if c = CHR '','' then Some (st, Want_key acc)
      else if c = CHR ''}'' then Some (value_done (JObj acc) st)
      else None)"
| "step_plain c (st, Done v) = (if is_json_ws c then Some (st, Done v) else None)"
| "step_plain c (st, In_string p s) =
     (if c = quote_char then Some (string_done p s st)
      else if c = backslash then Some (st, In_escape p s)
      else if (of_char c :: nat) < 32 then None
      else Some (st, In_string p (s @ [c])))"
| "step_plain c (st, In_escape p s) =
     (if c = quote_char \<or> c = backslash \<or> c = CHR ''/'' then Some (st, In_string p (s @ [c]))
      else if c = CHR ''b'' then Some (st, In_string p (s @ [CHR 0x08]))
      else if c = CHR ''f'' then Some (st, In_string p (s @ [CHR 0x0C]))
      else if c = CHR ''n'' then Some (st, In_string p (s @ [CHR 0x0A]))
      else if c = CHR ''r'' then Some (st, In_string p (s @ [CHR 0x0D]))
      else if c = CHR ''t'' then Some (st, In_string p (s @ [CHR 0x09]))
      else if c = CHR ''u'' then Some (st, In_unicode p s [])
      else None)"
| "step_plain c (st, In_unicode p s hs) =
     (case hex_value c of
        None \<Rightarrow> None
      | Some h \<Rightarrow>
          if length hs < 3 then Some (st, In_unicode p s (hs @ [h]))
          else (let code = foldl (\<lambda>a d. 16 * a + d) 0 (hs @ [h])
                in if code < 256 then Some (st, In_string p (s @ [char_of code])) else None))"
| "step_plain c (st, In_literal rest v) =
     (case rest of
        [] \<Rightarrow> None
      | x # xs \<Rightarrow>
          if c \<noteq> x then None
          else if xs = [] then Some (value_done v st)
          else Some (st, In_literal xs v))"
| "step_plain c (st, In_number ns acc) = None"

fun step :: "char \<Rightarrow> config \<Rightarrow> config option" where
  "step c (st, In_number ns acc) =
     (case num_step ns c of
        Some ns' \<Rightarrow> Some (st, In_number ns' (acc @ [c]))
      | None \<Rightarrow> if num_complete ns then step_plain c (value_done (JNum acc) st) else None)"
| "step c cfg = step_plain c cfg"

fun run :: "string \<Rightarrow> config \<Rightarrow> config option" where
  "run [] cfg = Some cfg"
| "run (c # cs) cfg = (case step c cfg of None \<Rightarrow> None | Some cfg' \<Rightarrow> run cs cfg')"

fun finish :: "config \<Rightarrow> json option" where
  "finish ([], Done v) = Some v"
| "finish ([], In_number ns acc) = (if num_complete ns then Some (JNum acc) else None)"
| "finish _ = None"

definition json_parse :: "string \<Rightarrow> json option" where
  "json_parse s = (case run s ([], Want_value) of None \<Rightarrow> None | Some cfg \<Rightarrow> finish cfg)"


paragraph \<open>\<^verbatim>\<open>new Date(s)\<close> for a date-only string, and its \<^verbatim>\<open>en-US\<close> formatting\<close>

definition digits_value :: "string \<Rightarrow> nat" where
  "digits_value s = foldl (\<lambda>a c. 10 * a + (of_char c - 48)) 0 s"

definition is_leap_year :: "nat \<Rightarrow> bool" where
  "is_leap_year y = (if y mod 400 = 0 then True else if y mod 100 = 0 then False else y mod 4 = 0)"

definition days_in_month :: "nat \<Rightarrow> nat \<Rightarrow> nat" where
  "days_in_month y m =
     (if m = 2 then (if is_leap_year y then 29 else 28)
      else if m = 4 \<or> m = 6 \<or> m = 9 \<or> m = 11 then 30
      else 31)"

definition iso_date_fields :: "string \<Rightarrow> (nat \<times> nat \<times> nat) option" where
  "iso_date_fields s =
     (if length s = 10 \<and> s ! 4 = CHR ''-'' \<and> s ! 7 = CHR ''-''
         \<and> list_all is_digit (take 4 s) \<and> list_all is_digit (take 2 (drop 5 s))
         \<and> list_all is_digit (drop 8 s)
      then (let y = digits_value (take 4 s); m = digits_value (take 2 (drop 5 s));
                d = digits_value (drop 8 s)
            in if 1 \<le> m \<and> m \<le> 12 \<and> 1 \<le> d \<and> d \<le> days_in_month y m
               then Some (y, m, d) else None)
      else None)"

text \<open>Days from 1970-01-01 to the given day of the proleptic Gregorian calendar.\<close>

definition days_from_epoch :: "nat \<Rightarrow> nat \<Rightarrow> nat \<Rightarrow> int" where
  "days_from_epoch y m d =
     (let y' = (if m \<le> 2 then int y - 1 else int y);
          era = y' div 400;
          yoe = y' - era * 400;
          mp = (if m \<le> 2 then int m + 9 else int m - 3);
          doy = (153 * mp + 2) div 5 + int d - 1;
          doe = yoe * 365 + yoe div 4 - yoe div 100 + doy
      in era * 146097 + doe - 719468)"

definition iso_date_time :: "string \<Rightarrow> int option" where
  "iso_date_time s =
     (case iso_date_fields s of
        None \<Rightarrow> None
      | Some (y, m, d) \<Rightarrow> Some (days_from_epoch y m d * 86400000))"

fun decimal :: "nat \<Rightarrow> string" where
  "decimal n =
     (if n < 10 then [''0123456789'' ! n] else decimal (n div 10) @ [''0123456789'' ! (n mod 10)])"

definition month_names :: "string list" where
  "month_names = [''Jan'', ''Feb'', ''Mar'', ''Apr'', ''May'', ''Jun'',
                  ''Jul'', ''Aug'', ''Sep'', ''Oct'', ''Nov'', ''Dec'']"

definition en_US_date :: "string \<Rightarrow> string" where
  "en_US_date s =
     (case iso_date_fields s of
        None \<Rightarrow> ''Invalid Date''
      | Some (y, m, d) \<Rightarrow> month_names ! (m - 1) @ '' '' @ decimal d @ '', '' @ decimal y)"

definition reference_platform :: platform where
  "reference_platform =
     \<lparr>JSON_parse = json_parse, JSON_stringify = json_stringify,
      Date_time = iso_date_time, toLocaleDateString = en_US_date\<rparr>"

subsection \<open>Vocabulary of the properties\<close>

text \<open>
  \<open>not_earlier P a b\<close>: both dates are valid and the date of \<open>a\<close> is not before the date
  of \<open>b\<close>. A list is in descending order of date when this holds of every element and
  every later one.
\<close>

definition not_earlier :: "platform \<Rightarrow> entry \<Rightarrow> entry \<Rightarrow> bool" where
  "not_earlier P a b =
     (case (Date_time P (entry_date a), Date_time P (entry_date b)) of
        (Some ta, Some tb) \<Rightarrow> tb \<le> ta
      | _ \<Rightarrow> False)"

text \<open>The id on the Remove button of an item; the placeholder has none.\<close>

fun entry_li_id :: "li \<Rightarrow> string" where
  "entry_li_id (Diary_entry label focus body i) = i"
| "entry_li_id (Diary_empty message) = []"

text \<open>
  \<open>reads_back P\<close>: on the platform \<open>P\<close>, \<^verbatim>\<open>JSON.parse\<close> returns the array of entries
  whose text \<^verbatim>\<open>JSON.stringify\<close> produced, and this text is not empty.
\<close>

definition reads_back :: "platform \<Rightarrow> bool" where
  "reads_back P =
     (\<forall>es. JSON_parse P (JSON_stringify P (entries_json es)) = Some (entries_json es)
         \<and> JSON_stringify P (entries_json es) \<noteq> [])"

text \<open>
  \<open>persisted P s es\<close>: loading from the storage of \<open>s\<close> returns the array \<open>es\<close>, and the
  array in memory is \<open>es\<close> as \<^verbatim>\<open>sort\<close> leaves it.
\<close>

definition persisted :: "platform \<Rightarrow> state \<Rightarrow> entry list \<Rightarrow> bool" where
  "persisted P s es =
     (fst (loadDiaryEntries P s) = entries_json es
      \<and> diaryEntries s = Array_sort (compareFn P) es)"


text \<open>The state of the page after it has loaded on a storage without the diary key.\<close>

definition empty_page :: state where
  "empty_page =
     \<lparr>storage = Map.empty, diaryEntries = [], diaryList = [Diary_empty empty_message],
      effects = []\<rparr>"

text \<open>
  The page after two accepted submissions on the empty page: an entry of 2024-01-01,
  then an entry of 2024-03-05.
\<close>

definition two_entries_page :: state where
  "two_entries_page =
     run_events reference_platform
       [Submit ''u1'' ''2024-01-01'' ''sit'' ''Good'',
        Submit ''u2'' ''2024-03-05'' ''leash'' ''Walked nicely''] empty_page"

section \<open>Lemmas\<close>

subsection \<open>The reference codec reads back what it writes\<close>

lemma hex_value_hex_digit: "n < 16 \<Longrightarrow> hex_value (hex_digit n) = Some n"
  by (auto simp: hex_value_def hex_digit_def Let_def)

lemma run_append: "run (xs @ ys) cfg = (case run xs cfg of None \<Rightarrow> None | Some cfg' \<Rightarrow> run ys cfg')"
  by (induction xs arbitrary: cfg) (auto split: option.splits)

lemma run_escape_char:
  "run (escape_char c @ rest) (st, In_string p s) = run rest (st, In_string p (s @ [c]))"
proof (cases "c = quote_char \<or> c = backslash \<or> c = CHR 0x08 \<or> c = CHR 0x0C \<or> c = CHR 0x0A
              \<or> c = CHR 0x0D \<or> c = CHR 0x09")
  case True
  then show ?thesis
    by (auto simp: escape_char_def quote_char_def backslash_def)
next
  case False
  show ?thesis
  proof (cases "(of_char c :: nat) < 32")
    case True
    have d: "(of_char c :: nat) div 16 < 16" "(of_char c :: nat) mod 16 < 16"
      using True by auto
    have z: "hex_value (CHR ''0'') = Some 0"
      by (simp add: hex_value_def)
    have v: "char_of (16 * ((of_char c :: nat) div 16) + of_char c mod 16) = c"
      by simp
    from False True show ?thesis
      by (simp add: escape_char_def quote_char_def backslash_def z v
            hex_value_hex_digit [OF d(1)] hex_value_hex_digit [OF d(2)])
  next
    case ge: False
    with False show ?thesis
      by (simp add: escape_char_def quote_char_def backslash_def)
  qed
qed

lemma run_string_body:
  "run (concat (map escape_char s) @ rest) (st, In_string p acc) =
   run rest (st, In_string p (acc @ s))"
proof (induction s arbitrary: acc)
  case Nil
  then show ?case by simp
next
  case (Cons c s)
  have "run (concat (map escape_char (c # s)) @ rest) (st, In_string p acc) =
        run (escape_char c @ (concat (map escape_char s) @ rest)) (st, In_string p acc)"
    by simp
  also have "\<dots> = run (concat (map escape_char s) @ rest) (st, In_string p (acc @ [c]))"
    by (rule run_escape_char)
  also have "\<dots> = run rest (st, In_string p ((acc @ [c]) @ s))"
    by (rule Cons.IH)
  finally show ?case by simp
qed

lemma run_quote_from:
  "run (concat (map escape_char s) @ quote_char # rest) (st, In_string p []) =
   run rest (string_done p s st)"
  by (simp add: run_string_body)

lemma run_quote_value:
  "run (quote s @ rest) (st, Want_value) = run rest (value_done (JStr s) st)"
  using run_quote_from [of s rest st As_value]
  by (simp add: quote_def start_value_def is_json_ws_def quote_char_def)

lemma run_quote_key:
  "run (quote k @ rest) (st, Want_key acc) = run rest (st, Want_colon acc k)"
  using run_quote_from [of k rest st "As_key acc"]
  by (simp add: quote_def is_json_ws_def quote_char_def)

lemma run_quote_first_key:
  "run (quote k @ rest) (st, Object_first) = run rest (st, Want_colon [] k)"
  using run_quote_from [of k rest st "As_key []"]
  by (simp add: quote_def is_json_ws_def quote_char_def)

lemma run_member_value:
  "run (CHR '':'' # quote s @ rest) (st, Want_colon acc k) =
   run rest (st, Object_next (set_prop k (JStr s) acc))"
  using run_quote_value [of s rest "In_object acc k # st"]
  by (simp add: is_json_ws_def)

lemma run_next_member:
  "run (CHR '','' # quote k @ CHR '':'' # quote s @ rest) (st, Object_next acc) =
   run rest (st, Object_next (set_prop k (JStr s) acc))"
  using run_quote_key [of k "CHR '':'' # quote s @ rest" st acc] run_member_value [of s rest st acc k]
  by (simp add: is_json_ws_def)

lemma run_first_member:
  "run (quote k @ CHR '':'' # quote s @ rest) (st, Object_first) =
   run rest (st, Object_next [(k, JStr s)])"
  using run_member_value [of s rest st "[]" k]
  by (simp add: run_quote_first_key del: run.simps)

lemma run_close_object:
  "run (CHR ''}'' # rest) (st, Object_next acc) = run rest (value_done (JObj acc) st)"
  by (simp add: is_json_ws_def)

lemma run_entry_members:
  "run (quote ''id'' @ CHR '':'' # quote (entry_id e) @ CHR '','' #
        quote ''date'' @ CHR '':'' # quote (entry_date e) @ CHR '','' #
        quote ''focus'' @ CHR '':'' # quote (entry_focus e) @ CHR '','' #
        quote ''text'' @ CHR '':'' # quote (entry_text e) @ CHR ''}'' # rest) (st, Object_first) =
   run rest (value_done (entry_json e) st)"
  by (simp add: run_first_member run_next_member run_close_object entry_json_def del: run.simps)

lemma run_entry_object:
  "run (json_stringify (entry_json e) @ rest) (st, Want_value) =
   run rest (value_done (entry_json e) st)"
  using run_entry_members [of e rest st]
  by (simp add: entry_json_def start_value_def is_json_ws_def quote_char_def)

lemma run_first_element:
  "run (json_stringify (entry_json e) @ rest) (st, Array_first) =
   run rest (st, Array_next [entry_json e])"
  using run_entry_members [of e rest "In_array [] # st"]
  by (simp add: entry_json_def start_value_def is_json_ws_def quote_char_def)

lemma run_next_element:
  "run (CHR '','' # json_stringify (entry_json e) @ rest) (st, Array_next acc) =
   run rest (st, Array_next (acc @ [entry_json e]))"
  using run_entry_object [of e rest "In_array acc # st"]
  by (simp add: is_json_ws_def)

lemma run_more_elements:
  "run (concat (map (\<lambda>e. CHR '','' # json_stringify (entry_json e)) es) @ rest) (st, Array_next acc) =
   run rest (st, Array_next (acc @ map entry_json es))"
proof (induction es arbitrary: acc)
  case Nil
  then show ?case by simp
next
  case (Cons e es)
  have "run (concat (map (\<lambda>e. CHR '','' # json_stringify (entry_json e)) (e # es)) @ rest)
          (st, Array_next acc) =
        run (CHR '','' # json_stringify (entry_json e) @
             (concat (map (\<lambda>e. CHR '','' # json_stringify (entry_json e)) es) @ rest))
          (st, Array_next acc)"
    by simp
  also have "\<dots> = run (concat (map (\<lambda>e. CHR '','' # json_stringify (entry_json e)) es) @ rest)
                       (st, Array_next (acc @ [entry_json e]))"
    by (rule run_next_element)
  also have "\<dots> = run rest (st, Array_next ((acc @ [entry_json e]) @ map entry_json es))"
    by (rule Cons.IH)
  finally show ?case by simp
qed

lemma join_commas_Cons:
  "join_commas (x # xs) = x @ concat (map (\<lambda>y. CHR '','' # y) xs)"
  by (induction xs arbitrary: x) auto

lemma json_stringify_entries:
  "json_stringify (entries_json (e # es)) =
   CHR ''['' # json_stringify (entry_json e) @
     (concat (map (\<lambda>e. CHR '','' # json_stringify (entry_json e)) es) @ '']'')"
  by (simp add: entries_json_def join_commas_Cons map_concat comp_def del: json_stringify.simps(6))

lemma json_parse_stringify_entries:
  "json_parse (json_stringify (entries_json es)) = Some (entries_json es)"
proof (cases es)
  case Nil
  then show ?thesis
    by (simp add: json_parse_def entries_json_def is_json_ws_def start_value_def quote_char_def)
next
  case (Cons e es')
  have "run (json_stringify (entries_json (e # es'))) ([], Want_value) =
        run (json_stringify (entry_json e) @
              (concat (map (\<lambda>e. CHR '','' # json_stringify (entry_json e)) es') @ '']''))
          ([], Array_first)"
    by (simp add: json_stringify_entries is_json_ws_def start_value_def quote_char_def
             del: json_stringify.simps)
  also have "\<dots> = run '']'' ([], Array_next ([entry_json e] @ map entry_json es'))"
    by (simp only: run_first_element run_more_elements)
  also have "\<dots> = Some ([], Done (entries_json (e # es')))"
    by (simp add: is_json_ws_def entries_json_def)
  finally show ?thesis
    using Cons by (simp add: json_parse_def)
qed

lemma json_stringify_entries_nonempty: "json_stringify (entries_json es) \<noteq> []"
  by (simp add: entries_json_def)

lemma reference_codec:
  "JSON_parse reference_platform = json_parse"
  "JSON_stringify reference_platform = json_stringify"
  by (simp_all add: reference_platform_def)

lemma reads_back_reference: "reads_back reference_platform"
  by (simp add: reads_back_def reference_codec json_parse_stringify_entries
        json_stringify_entries_nonempty del: json_stringify.simps)

lemma reference_parse_examples:
  "JSON_parse reference_platform ''{broken'' = None"
  "JSON_parse reference_platform ''null'' = Some JNull"
  "JSON_parse reference_platform [] = None"
  by (simp_all add: reference_codec json_parse_def start_value_def quote_char_def is_json_ws_def)

subsection \<open>The reference platform at the dates and texts of the examples\<close>

lemmas iso_date_eval =
  iso_date_time_def iso_date_fields_def is_digit_def digits_value_def days_in_month_def
  is_leap_year_def days_from_epoch_def

lemma reference_dates:
  "Date_time reference_platform ''2024-01-01'' = Some 1704067200000"
  "Date_time reference_platform ''2024-02-10'' = Some 1707523200000"
  "Date_time reference_platform ''2024-03-05'' = Some 1709596800000"
  "Date_time reference_platform ''2024-05-01'' = Some 1714521600000"
  by (simp_all add: reference_platform_def iso_date_eval)

lemma reference_unparsable_date: "Date_time reference_platform ''soon'' = None"
  by (simp add: reference_platform_def iso_date_time_def iso_date_fields_def)

lemma reference_labels:
  "toLocaleDateString reference_platform ''2024-01-01'' = ''Jan 1, 2024''"
  "toLocaleDateString reference_platform ''2024-02-10'' = ''Feb 10, 2024''"
  "toLocaleDateString reference_platform ''2024-03-05'' = ''Mar 5, 2024''"
  "toLocaleDateString reference_platform ''2024-05-01'' = ''May 1, 2024''"
  by (simp_all add: reference_platform_def en_US_date_def iso_date_fields_def is_digit_def
        digits_value_def days_in_month_def is_leap_year_def month_names_def)

lemma reference_compare:
  "compareFn reference_platform
     \<lparr>entry_id = i, entry_date = ''2024-01-01'', entry_focus = f, entry_text = t\<rparr>
     \<lparr>entry_id = i', entry_date = ''2024-03-05'', entry_focus = f', entry_text = t'\<rparr> =
   Some 5529600000"
  "compareFn reference_platform
     \<lparr>entry_id = i, entry_date = ''2024-03-05'', entry_focus = f, entry_text = t\<rparr>
     \<lparr>entry_id = i', entry_date = ''2024-02-10'', entry_focus = f', entry_text = t'\<rparr> =
   Some (- 2073600000)"
  "compareFn reference_platform
     \<lparr>entry_id = i, entry_date = ''2024-01-01'', entry_focus = f, entry_text = t\<rparr>
     \<lparr>entry_id = i', entry_date = ''2024-02-10'', entry_focus = f', entry_text = t'\<rparr> =
   Some 3456000000"
  by (simp_all add: compareFn_def reference_dates)

lemma trim_examples:
  "trim ''Walked nicely'' = ''Walked nicely''"
  "trim ''  Walked nicely  '' = ''Walked nicely''"
  "trim ''Good'' = ''Good''"
  by (simp_all add: trim_def is_white_space_def)

subsection \<open>Sorting\<close>

lemma mset_insert_by: "mset (insert_by cmp x ys) = add_mset x (mset ys)"
  by (induction ys) auto

lemma mset_Array_sort: "mset (Array_sort cmp xs) = mset xs"
  by (induction xs) (auto simp: Array_sort_def mset_insert_by)

lemma set_Array_sort: "set (Array_sort cmp xs) = set xs"
  using mset_Array_sort [of cmp xs] by (metis set_mset_mset)

lemma length_Array_sort: "length (Array_sort cmp xs) = length xs"
  using mset_Array_sort [of cmp xs] by (metis size_mset)

lemma Array_sort_Nil: "Array_sort cmp xs = [] \<longleftrightarrow> xs = []"
  using length_Array_sort [of cmp xs] by auto

lemma set_insert_by: "set (insert_by cmp x ys) = insert x (set ys)"
  using mset_insert_by [of cmp x ys] by (metis set_mset_add_mset_insert set_mset_mset)

lemma sorted_insert_by:
  assumes "sorted_wrt (not_earlier P) ys"
    and "Date_time P (entry_date x) \<noteq> None"
    and "\<forall>y \<in> set ys. Date_time P (entry_date y) \<noteq> None"
  shows "sorted_wrt (not_earlier P) (insert_by (compareFn P) x ys)"
  using assms
proof (induction ys)
  case Nil
  then show ?case by simp
next
  case (Cons y ys)
  from Cons.prems obtain tx ty where t: "Date_time P (entry_date x) = Some tx"
      "Date_time P (entry_date y) = Some ty"
    by auto
  have c: "compareFn P x y = Some (ty - tx)"
    using t by (simp add: compareFn_def)
  show ?case
  proof (cases "ty - tx > 0")
    case True
    have "sorted_wrt (not_earlier P) (insert_by (compareFn P) x ys)"
      using Cons by simp
    moreover have "not_earlier P y x"
      using True t by (simp add: not_earlier_def)
    ultimately show ?thesis
      using True c Cons.prems(1) by (auto simp: set_insert_by)
  next
    case False
    have yx: "not_earlier P x y"
      using False t by (simp add: not_earlier_def)
    have "\<forall>z \<in> set ys. not_earlier P x z"
    proof
      fix z assume z: "z \<in> set ys"
      then have "not_earlier P y z" using Cons.prems(1) by simp
      then show "not_earlier P x z"
        using yx by (auto simp: not_earlier_def split: option.splits)
    qed
    then show ?thesis
      using False c yx Cons.prems(1) by auto
  qed
qed

lemma sorted_Array_sort:
  "\<forall>e \<in> set xs. Date_time P (entry_date e) \<noteq> None \<Longrightarrow>
   sorted_wrt (not_earlier P) (Array_sort (compareFn P) xs)"
proof (induction xs)
  case Nil
  then show ?case by (simp add: Array_sort_def)
next
  case (Cons x xs)
  have "sorted_wrt (not_earlier P) (insert_by (compareFn P) x (Array_sort (compareFn P) xs))"
    using Cons by (intro sorted_insert_by) (auto simp: set_Array_sort)
  then show ?case by (simp add: Array_sort_def)
qed

lemma insert_by_front:
  assumes "\<forall>y \<in> set ys. not_earlier P x y"
  shows "insert_by (compareFn P) x ys = x # ys"
proof (cases ys)
  case Nil
  then show ?thesis by simp
next
  case (Cons y zs)
  then have "not_earlier P x y" using assms by simp
  then have "(case compareFn P x y of None \<Rightarrow> 0 | Some v \<Rightarrow> v) \<le> 0"
    by (auto simp: not_earlier_def compareFn_def split: option.splits)
  then show ?thesis using Cons by simp
qed

lemma Array_sort_sorted:
  "sorted_wrt (not_earlier P) xs \<Longrightarrow> Array_sort (compareFn P) xs = xs"
proof (induction xs)
  case Nil
  then show ?case by (simp add: Array_sort_def)
next
  case (Cons x xs)
  then have "Array_sort (compareFn P) xs = xs" by simp
  moreover have "insert_by (compareFn P) x xs = x # xs"
    using Cons.prems by (intro insert_by_front) simp
  ultimately show ?case by (simp add: Array_sort_def)
qed

subsection \<open>Searching, splicing, trimming\<close>

lemma findIndex_None: "findIndex p xs = None \<longleftrightarrow> (\<forall>x \<in> set xs. \<not> p x)"
  by (induction xs) (auto split: option.splits)

lemma findIndex_Some:
  "findIndex p xs = Some k \<Longrightarrow> k < length xs \<and> p (xs ! k) \<and> (\<forall>j < k. \<not> p (xs ! j))"
proof (induction xs arbitrary: k)
  case Nil
  then show ?case by simp
next
  case (Cons x xs)
  show ?case
  proof (cases "p x")
    case True
    with Cons.prems show ?thesis by simp
  next
    case False
    with Cons.prems obtain i where i: "findIndex p xs = Some i" "k = Suc i"
      by (auto split: option.splits)
    from Cons.IH [OF i(1)] False i(2) show ?thesis
      by (auto simp: less_Suc_eq_0_disj)
  qed
qed

lemma mset_splice1: "k < length xs \<Longrightarrow> mset (splice1 k xs) = mset xs - {#xs ! k#}"
proof -
  assume k: "k < length xs"
  have "mset xs = mset (take k xs @ xs ! k # drop (Suc k) xs)"
    using k by (simp add: id_take_nth_drop [symmetric])
  then show ?thesis
    by (simp add: splice1_def)
qed

lemma trim_no_edge_space:
  assumes "trim s \<noteq> []"
  shows "\<not> is_white_space (hd (trim s)) \<and> \<not> is_white_space (last (trim s))"
proof -
  let ?a = "dropWhile is_white_space s"
  let ?b = "dropWhile is_white_space (rev ?a)"
  have b: "?b \<noteq> []" using assms by (simp add: trim_def)
  have hb: "\<not> is_white_space (hd ?b)"
    using b by (rule hd_dropWhile)
  have l: "last (trim s) = hd ?b"
    using b by (simp add: trim_def last_rev)
  have a: "?a \<noteq> []"
  proof
    assume e: "?a = []"
    have "?b = []" unfolding e by simp
    with b show False by simp
  qed
  have ha: "\<not> is_white_space (hd ?a)"
    using a by (rule hd_dropWhile)
  have "?a = rev (takeWhile is_white_space (rev ?a) @ ?b)"
    by (simp only: takeWhile_dropWhile_id rev_rev_ident)
  then have "?a = rev ?b @ rev (takeWhile is_white_space (rev ?a))"
    by (simp only: rev_append)
  then have "hd ?a = hd (rev ?b @ rev (takeWhile is_white_space (rev ?a)))"
    by (rule arg_cong)
  then have "hd ?a = hd (rev ?b)"
    using b by simp
  then have "hd (trim s) = hd ?a"
    by (simp add: trim_def)
  with ha hb l show ?thesis by simp
qed

lemma distinct_ids_mset:
  "mset xs = mset ys \<Longrightarrow> distinct (map entry_id xs) = distinct (map entry_id ys)"
proof -
  assume "mset xs = mset ys"
  then have "mset (map entry_id xs) = mset (map entry_id ys)"
    by simp
  then show ?thesis
    by (rule mset_eq_imp_distinct_iff)
qed

lemma count_ids_mset:
  "mset xs = mset ys \<Longrightarrow> length (filter p xs) = length (filter p ys)"
proof -
  assume "mset xs = mset ys"
  then have "mset (filter p xs) = mset (filter p ys)"
    by simp
  then show ?thesis
    by (rule mset_eq_length)
qed

subsection \<open>Rendering and saving\<close>

lemma fst_renderDiary: "fst (renderDiary P es) = Array_sort (compareFn P) es"
  by (simp add: renderDiary_def Array_sort_def Let_def)

lemma snd_renderDiary:
  "snd (renderDiary P es) =
   (if es = [] then [Diary_empty empty_message] else map (entry_li P) (Array_sort (compareFn P) es))"
  by (simp add: renderDiary_def Let_def)

lemma render_simps:
  "diaryEntries (render P s) = Array_sort (compareFn P) (diaryEntries s)"
  "diaryList (render P s) = snd (renderDiary P (diaryEntries s))"
  "storage (render P s) = storage s"
  "effects (render P s) = effects s"
  using fst_renderDiary [of P "diaryEntries s"]
  by (auto simp: render_def split: prod.splits)

lemma save_simps:
  "diaryEntries (saveDiaryEntries P es s) = diaryEntries s"
  "diaryList (saveDiaryEntries P es s) = diaryList s"
  "effects (saveDiaryEntries P es s) = effects s"
  "storage (saveDiaryEntries P es s) =
     (storage s)(diaryStorageKey \<mapsto> JSON_stringify P (entries_json es))"
  by (simp_all add: saveDiaryEntries_def)

subsection \<open>Loading\<close>

lemma json_entry_entry_json: "json_entry (entry_json e) = Some e"
  by (simp add: entry_json_def)

lemma json_entries_entries_json: "json_entries (entries_json es) = Some es"
  by (induction es) (simp_all add: entries_json_def json_entry_entry_json)

lemma json_entry_Some: "json_entry v = Some e \<Longrightarrow> v = entry_json e"
  by (induction v rule: json_entry.induct) (auto simp: entry_json_def split: if_splits)

lemma json_entry_list_Some: "json_entry_list vs = Some es \<Longrightarrow> vs = map entry_json es"
  by (induction vs arbitrary: es) (auto split: option.splits dest: json_entry_Some)

lemma json_entries_Some: "json_entries v = Some es \<Longrightarrow> v = entries_json es"
  by (cases v) (auto simp: entries_json_def dest: json_entry_list_Some)

text \<open>What \<^verbatim>\<open>loadDiaryEntries\<close> returns depends on the storage alone.\<close>

lemma fst_load_storage:
  "storage s = storage s' \<Longrightarrow> fst (loadDiaryEntries P s) = fst (loadDiaryEntries P s')"
  by (simp add: loadDiaryEntries_def split: option.splits)

lemma load_after_load:
  "loadDiaryEntries P (snd (loadDiaryEntries P s)) =
   (fst (loadDiaryEntries P s), snd (loadDiaryEntries P s))"
  by (simp add: loadDiaryEntries_def split: option.splits)

lemma load_after_save:
  assumes "reads_back P"
  shows "loadDiaryEntries P (saveDiaryEntries P es s) =
         (entries_json es, saveDiaryEntries P es s)"
  using assms by (simp add: loadDiaryEntries_def saveDiaryEntries_def reads_back_def)

lemma load_of_written:
  assumes "reads_back P"
    and "storage s diaryStorageKey = Some (JSON_stringify P (entries_json es))"
  shows "fst (loadDiaryEntries P s) = entries_json es"
  using assms by (simp add: loadDiaryEntries_def reads_back_def)

subsection \<open>The handlers when they change the array\<close>

lemma on_submit_accepted:
  assumes "date \<noteq> []" and "trim entry \<noteq> []"
  shows "diaryEntries (on_submit P uuid date focus entry s) =
           Array_sort (compareFn P) (diaryEntries s @
             [\<lparr>entry_id = uuid, entry_date = date, entry_focus = focus, entry_text = trim entry\<rparr>])"
    and "storage (on_submit P uuid date focus entry s) =
           (storage s)(diaryStorageKey \<mapsto> JSON_stringify P (entries_json (diaryEntries s @
             [\<lparr>entry_id = uuid, entry_date = date, entry_focus = focus, entry_text = trim entry\<rparr>])))"
    and "diaryList (on_submit P uuid date focus entry s) =
           snd (renderDiary P (diaryEntries s @
             [\<lparr>entry_id = uuid, entry_date = date, entry_focus = focus, entry_text = trim entry\<rparr>]))"
    and "effects (on_submit P uuid date focus entry s) =
           effects s @ [Prevent_default, Form_reset, Set_date_input date]"
  using assms by (simp_all add: on_submit_def Let_def render_simps save_simps)

lemma on_list_click_found:
  assumes "findIndex (\<lambda>e. entry_id e = i) (diaryEntries s) = Some k"
  shows "diaryEntries (on_list_click P (Some i) s) =
           Array_sort (compareFn P) (splice1 k (diaryEntries s))"
    and "storage (on_list_click P (Some i) s) =
           (storage s)(diaryStorageKey \<mapsto>
              JSON_stringify P (entries_json (splice1 k (diaryEntries s))))"
    and "diaryList (on_list_click P (Some i) s) = snd (renderDiary P (splice1 k (diaryEntries s)))"
    and "effects (on_list_click P (Some i) s) = effects s"
  using assms by (simp_all add: on_list_click_def Let_def render_simps save_simps)

subsection \<open>The example pages\<close>

lemma page_load_empty: "page_load reference_platform Map.empty = Some empty_page"
  by (simp add: page_load_def loadDiaryEntries_def render_def renderDiary_def empty_page_def)

lemma two_entries_page:
  "diaryEntries two_entries_page =
   [\<lparr>entry_id = ''u2'', entry_date = ''2024-03-05'', entry_focus = ''leash'', entry_text = ''Walked nicely''\<rparr>,
    \<lparr>entry_id = ''u1'', entry_date = ''2024-01-01'', entry_focus = ''sit'', entry_text = ''Good''\<rparr>]"
  "storage two_entries_page diaryStorageKey =
   Some (json_stringify (entries_json
     [\<lparr>entry_id = ''u1'', entry_date = ''2024-01-01'', entry_focus = ''sit'', entry_text = ''Good''\<rparr>,
      \<lparr>entry_id = ''u2'', entry_date = ''2024-03-05'', entry_focus = ''leash'', entry_text = ''Walked nicely''\<rparr>]))"
  unfolding two_entries_page_def
proof -
  have d: "''2024-01-01'' \<noteq> []" "''2024-03-05'' \<noteq> []" by simp_all
  have t: "trim ''Good'' \<noteq> []" "trim ''Walked nicely'' \<noteq> []"
    by (simp_all add: trim_examples)
  let ?s1 = "on_submit reference_platform ''u1'' ''2024-01-01'' ''sit'' ''Good'' empty_page"
  have e1: "diaryEntries ?s1 =
      [\<lparr>entry_id = ''u1'', entry_date = ''2024-01-01'', entry_focus = ''sit'', entry_text = ''Good''\<rparr>]"
    by (simp add: on_submit_accepted(1) [OF d(1) t(1)] trim_examples empty_page_def Array_sort_def)
  show "diaryEntries (run_events reference_platform
      [Submit ''u1'' ''2024-01-01'' ''sit'' ''Good'',
       Submit ''u2'' ''2024-03-05'' ''leash'' ''Walked nicely''] empty_page) =
   [\<lparr>entry_id = ''u2'', entry_date = ''2024-03-05'', entry_focus = ''leash'', entry_text = ''Walked nicely''\<rparr>,
    \<lparr>entry_id = ''u1'', entry_date = ''2024-01-01'', entry_focus = ''sit'', entry_text = ''Good''\<rparr>]"
    by (simp add: on_submit_accepted(1) [OF d(2) t(2)] e1 trim_examples Array_sort_def
          reference_compare)
  show "storage (run_events reference_platform
      [Submit ''u1'' ''2024-01-01'' ''sit'' ''Good'',
       Submit ''u2'' ''2024-03-05'' ''leash'' ''Walked nicely''] empty_page) diaryStorageKey =
   Some (json_stringify (entries_json
     [\<lparr>entry_id = ''u1'', entry_date = ''2024-01-01'', entry_focus = ''sit'', entry_text = ''Good''\<rparr>,
      \<lparr>entry_id = ''u2'', entry_date = ''2024-03-05'', entry_focus = ''leash'', entry_text = ''Walked nicely''\<rparr>]))"
    by (simp add: on_submit_accepted(2) [OF d(2) t(2)] e1 trim_examples reference_codec
          del: json_stringify.simps)
qed

subsection \<open>The storage and the array along a session\<close>

lemma persisted_written:
  assumes "reads_back P"
    and "storage s = (storage s0)(diaryStorageKey \<mapsto> JSON_stringify P (entries_json es))"
    and "diaryEntries s = Array_sort (compareFn P) es"
  shows "persisted P s es"
  using assms by (simp add: persisted_def load_of_written)

lemma persisted_unchanged:
  assumes "persisted P s es" and "storage s' = storage s" and "diaryEntries s' = diaryEntries s"
  shows "persisted P s' es"
  using assms fst_load_storage [of s' s P] by (simp add: persisted_def)

lemma persisted_on_submit:
  assumes "reads_back P" and "persisted P s es"
  shows "\<exists>es'. persisted P (on_submit P uuid date focus entry s) es'"
proof (cases "date = [] \<or> trim entry = []")
  case True
  then have "storage (on_submit P uuid date focus entry s) = storage s"
      "diaryEntries (on_submit P uuid date focus entry s) = diaryEntries s"
    by (auto simp: on_submit_def Let_def)
  with assms(2) show ?thesis
    by (blast intro: persisted_unchanged)
next
  case False
  then have a: "date \<noteq> []" "trim entry \<noteq> []" by simp_all
  show ?thesis
    using persisted_written [OF assms(1) on_submit_accepted(2) [OF a] on_submit_accepted(1) [OF a]]
    by blast
qed

lemma persisted_on_clear:
  assumes "reads_back P" and "persisted P s es"
  shows "\<exists>es'. persisted P (on_clear P confirmed s) es'"
proof (cases confirmed)
  case True
  have "persisted P (on_clear P True s) []"
    by (rule persisted_written [OF assms(1), where ?s0.0 = s])
       (simp_all add: on_clear_def Let_def render_simps save_simps)
  with True show ?thesis by auto
next
  case False
  with assms(2) show ?thesis
    by (auto simp: on_clear_def)
qed

lemma persisted_on_list_click:
  assumes "reads_back P" and "persisted P s es"
  shows "\<exists>es'. persisted P (on_list_click P target s) es'"
proof (cases target)
  case None
  with assms(2) show ?thesis
    by (auto simp: on_list_click_def)
next
  case (Some i)
  show ?thesis
  proof (cases "findIndex (\<lambda>e. entry_id e = i) (diaryEntries s)")
    case None
    with Some assms(2) show ?thesis
      by (auto simp: on_list_click_def)
  next
    case k: (Some k)
    show ?thesis
      unfolding Some
      using persisted_written [OF assms(1) on_list_click_found(2) [OF k] on_list_click_found(1) [OF k]]
      by blast
  qed
qed

lemma persisted_handle:
  assumes "reads_back P" and "persisted P s es"
  shows "\<exists>es'. persisted P (handle P ev s) es'"
  using assms
  by (cases ev) (simp_all add: persisted_on_submit persisted_on_clear persisted_on_list_click)

lemma persisted_run_events:
  assumes "reads_back P" and "persisted P s es"
  shows "\<exists>es'. persisted P (run_events P evs s) es'"
  using assms(2)
proof (induction evs arbitrary: s es)
  case Nil
  then show ?case by auto
next
  case (Cons ev evs)
  from persisted_handle [OF assms(1) Cons.prems]
  obtain es' where "persisted P (handle P ev s) es'" ..
  from Cons.IH [OF this] show ?case by simp
qed

lemma persisted_page_load:
  assumes "page_load P store = Some s0"
  shows "\<exists>es. persisted P s0 es"
proof -
  let ?i = "\<lparr>storage = store, diaryEntries = [], diaryList = [], effects = []\<rparr>"
  from assms obtain es where
    es: "json_entries (fst (loadDiaryEntries P ?i)) = Some es"
    and s0: "s0 = render P ((snd (loadDiaryEntries P ?i))\<lparr>diaryEntries := es\<rparr>)"
    by (auto simp: page_load_def split: prod.splits option.splits)
  have "fst (loadDiaryEntries P s0) = fst (loadDiaryEntries P (snd (loadDiaryEntries P ?i)))"
    by (rule fst_load_storage) (simp add: s0 render_simps)
  also have "\<dots> = fst (loadDiaryEntries P ?i)"
    by (simp add: load_after_load)
  also have "\<dots> = entries_json es"
    using es by (rule json_entries_Some)
  finally have "persisted P s0 es"
    by (simp add: persisted_def s0 render_simps)
  then show ?thesis ..
qed

subsection \<open>The list element after rendering\<close>

lemma diaryList_render:
  "diaryList (render P s) =
     (if diaryEntries (render P s) = [] then [Diary_empty empty_message]
      else map (entry_li P) (diaryEntries (render P s)))"
  by (simp add: render_simps snd_renderDiary Array_sort_Nil)

lemma render_valid_dates:
  assumes "\<forall>e \<in> set (diaryEntries s). Date_time P (entry_date e) \<noteq> None"
  shows "sorted_wrt (not_earlier P) (diaryEntries (render P s))"
  using assms by (simp add: render_simps sorted_Array_sort)

section \<open>The claims\<close>

subsection \<open>C1: the storage and the array in memory\<close>

text \<open>
  C1, as amended. After page load and after every operation of a session, loading from
  the storage returns an array with the entries of the array in memory, each as often,
  but not always in the same order. When every date of that array is one that
  \<^verbatim>\<open>new Date\<close> can read, the array in memory is in descending order of date and is the
  stable sort of the array that loading returns. Loading right after saving an array
  returns this array. All this holds on a platform that reads back what it writes.
\<close>

theorem storage_holds_the_entries_of_memory:
  assumes "reads_back P" and "page_load P store = Some s0"
  shows "(\<exists>es. fst (loadDiaryEntries P (run_events P evs s0)) = entries_json es
            \<and> mset (diaryEntries (run_events P evs s0)) = mset es
            \<and> ((\<forall>e \<in> set es. Date_time P (entry_date e) \<noteq> None) \<longrightarrow>
                   sorted_wrt (not_earlier P) (diaryEntries (run_events P evs s0))
                 \<and> diaryEntries (run_events P evs s0) = Array_sort (compareFn P) es))
       \<and> fst (loadDiaryEntries P (saveDiaryEntries P X s)) = entries_json X"
proof -
  from persisted_page_load [OF assms(2)] obtain es0 where "persisted P s0 es0" ..
  from persisted_run_events [OF assms(1) this]
  obtain es where p: "persisted P (run_events P evs s0) es" ..
  have l: "fst (loadDiaryEntries P (run_events P evs s0)) = entries_json es"
    and m: "diaryEntries (run_events P evs s0) = Array_sort (compareFn P) es"
    using p by (simp_all add: persisted_def)
  have "mset (diaryEntries (run_events P evs s0)) = mset es"
    unfolding m by (rule mset_Array_sort)
  moreover have "sorted_wrt (not_earlier P) (diaryEntries (run_events P evs s0))"
    if "\<forall>e \<in> set es. Date_time P (entry_date e) \<noteq> None"
    unfolding m using that by (rule sorted_Array_sort)
  moreover have "fst (loadDiaryEntries P (saveDiaryEntries P X s)) = entries_json X"
    using load_after_save [OF assms(1), of X s] by simp
  ultimately show ?thesis
    using l m by blast
qed

theorem storage_holds_entries_witness:
  "reads_back reference_platform
   \<and> page_load reference_platform Map.empty = Some empty_page
   \<and> fst (loadDiaryEntries reference_platform two_entries_page) =
       entries_json
        [\<lparr>entry_id = ''u1'', entry_date = ''2024-01-01'', entry_focus = ''sit'', entry_text = ''Good''\<rparr>,
         \<lparr>entry_id = ''u2'', entry_date = ''2024-03-05'', entry_focus = ''leash'', entry_text = ''Walked nicely''\<rparr>]
   \<and> mset (diaryEntries two_entries_page) =
       {#\<lparr>entry_id = ''u1'', entry_date = ''2024-01-01'', entry_focus = ''sit'', entry_text = ''Good''\<rparr>,
         \<lparr>entry_id = ''u2'', entry_date = ''2024-03-05'', entry_focus = ''leash'', entry_text = ''Walked nicely''\<rparr>#}
   \<and> sorted_wrt (not_earlier reference_platform) (diaryEntries two_entries_page)
   \<and> diaryEntries two_entries_page =
       Array_sort (compareFn reference_platform)
        [\<lparr>entry_id = ''u1'', entry_date = ''2024-01-01'', entry_focus = ''sit'', entry_text = ''Good''\<rparr>,
         \<lparr>entry_id = ''u2'', entry_date = ''2024-03-05'', entry_focus = ''leash'', entry_text = ''Walked nicely''\<rparr>]"
proof -
  let ?es = "[\<lparr>entry_id = ''u1'', entry_date = ''2024-01-01'', entry_focus = ''sit'', entry_text = ''Good''\<rparr>,
        \<lparr>entry_id = ''u2'', entry_date = ''2024-03-05'', entry_focus = ''leash'', entry_text = ''Walked nicely''\<rparr>]"
  from storage_holds_the_entries_of_memory [OF reads_back_reference page_load_empty,
      of "[Submit ''u1'' ''2024-01-01'' ''sit'' ''Good'',
           Submit ''u2'' ''2024-03-05'' ''leash'' ''Walked nicely'']"]
  obtain es where es: "fst (loadDiaryEntries reference_platform two_entries_page) = entries_json es"
      "mset (diaryEntries two_entries_page) = mset es"
      "(\<forall>e \<in> set es. Date_time reference_platform (entry_date e) \<noteq> None) \<longrightarrow>
         sorted_wrt (not_earlier reference_platform) (diaryEntries two_entries_page)
       \<and> diaryEntries two_entries_page = Array_sort (compareFn reference_platform) es"
    unfolding two_entries_page_def by blast
  have "fst (loadDiaryEntries reference_platform two_entries_page) = entries_json ?es"
    by (rule load_of_written [OF reads_back_reference])
       (simp only: two_entries_page(2) reference_codec)
  with es(1) have "json_entries (entries_json es) = json_entries (entries_json ?es)"
    by simp
  then have e: "es = ?es"
    by (simp only: json_entries_entries_json option.inject)
  have v: "\<forall>e \<in> set ?es. Date_time reference_platform (entry_date e) \<noteq> None"
    by (simp add: reference_dates)
  from es(3) v have o: "sorted_wrt (not_earlier reference_platform) (diaryEntries two_entries_page)"
      "diaryEntries two_entries_page = Array_sort (compareFn reference_platform) ?es"
    unfolding e by blast+
  have l: "fst (loadDiaryEntries reference_platform two_entries_page) = entries_json ?es"
    using es(1) unfolding e .
  have m: "mset (diaryEntries two_entries_page) = mset ?es"
    using es(2) unfolding e .
  from m have m': "mset (diaryEntries two_entries_page) =
       {#\<lparr>entry_id = ''u1'', entry_date = ''2024-01-01'', entry_focus = ''sit'', entry_text = ''Good''\<rparr>,
         \<lparr>entry_id = ''u2'', entry_date = ''2024-03-05'', entry_focus = ''leash'', entry_text = ''Walked nicely''\<rparr>#}"
    by simp
  show ?thesis
    by (intro conjI) (rule reads_back_reference page_load_empty l m' o)+
qed

text \<open>
  C1 as stated fails: after the entry of 2024-01-01 and then the entry of 2024-03-05
  have been submitted on the empty page, loading returns them in this order, and the
  array in memory holds them in the other order.
\<close>

theorem storage_order_differs_from_memory:
  "page_load reference_platform Map.empty = Some empty_page
   \<and> two_entries_page =
       run_events reference_platform
         [Submit ''u1'' ''2024-01-01'' ''sit'' ''Good'',
          Submit ''u2'' ''2024-03-05'' ''leash'' ''Walked nicely''] empty_page
   \<and> fst (loadDiaryEntries reference_platform two_entries_page) =
       entries_json
        [\<lparr>entry_id = ''u1'', entry_date = ''2024-01-01'', entry_focus = ''sit'', entry_text = ''Good''\<rparr>,
         \<lparr>entry_id = ''u2'', entry_date = ''2024-03-05'', entry_focus = ''leash'', entry_text = ''Walked nicely''\<rparr>]
   \<and> diaryEntries two_entries_page =
        [\<lparr>entry_id = ''u2'', entry_date = ''2024-03-05'', entry_focus = ''leash'', entry_text = ''Walked nicely''\<rparr>,
         \<lparr>entry_id = ''u1'', entry_date = ''2024-01-01'', entry_focus = ''sit'', entry_text = ''Good''\<rparr>]
   \<and> fst (loadDiaryEntries reference_platform two_entries_page) \<noteq>
       entries_json (diaryEntries two_entries_page)"
proof -
  let ?es = "[\<lparr>entry_id = ''u1'', entry_date = ''2024-01-01'', entry_focus = ''sit'', entry_text = ''Good''\<rparr>,
        \<lparr>entry_id = ''u2'', entry_date = ''2024-03-05'', entry_focus = ''leash'', entry_text = ''Walked nicely''\<rparr>]"
  have l: "fst (loadDiaryEntries reference_platform two_entries_page) = entries_json ?es"
    by (rule load_of_written [OF reads_back_reference])
       (simp only: two_entries_page(2) reference_codec)
  have ne: "entries_json ?es \<noteq> entries_json (diaryEntries two_entries_page)"
    by (simp add: two_entries_page(1) entries_json_def entry_json_def)
  have n: "fst (loadDiaryEntries reference_platform two_entries_page) \<noteq>
       entries_json (diaryEntries two_entries_page)"
    unfolding l by (rule ne)
  show ?thesis
    by (intro conjI) (rule page_load_empty two_entries_page_def l two_entries_page(1) n)+
qed

subsection \<open>C2: loading from a storage that does not parse\<close>

text \<open>
  C2, as amended. When the diary key holds a non-empty text that does not parse,
  loading warns on the console, removes the key and returns the empty array, and
  loading again returns the empty array and changes nothing. When the key is absent or
  holds the empty text, loading returns the empty array and changes nothing.
\<close>

theorem load_resets_unparsable_storage:
  "(storage s diaryStorageKey = Some raw \<and> raw \<noteq> [] \<and> JSON_parse P raw = None \<longrightarrow>
      loadDiaryEntries P s =
        (JArr [],
         s\<lparr>storage := (storage s)(diaryStorageKey := None),
           effects := effects s @
             [Console_warn ''Unable to parse diary entries, resetting storage.'']\<rparr>)
      \<and> storage (snd (loadDiaryEntries P s)) diaryStorageKey = None
      \<and> loadDiaryEntries P (snd (loadDiaryEntries P s)) = (JArr [], snd (loadDiaryEntries P s)))
   \<and> (storage s diaryStorageKey = None \<or> storage s diaryStorageKey = Some [] \<longrightarrow>
      loadDiaryEntries P s = (JArr [], s))"
  by (auto simp: loadDiaryEntries_def)

theorem load_resets_witness:
  "loadDiaryEntries reference_platform
     \<lparr>storage = [diaryStorageKey \<mapsto> ''{broken''], diaryEntries = [], diaryList = [], effects = []\<rparr> =
     (JArr [],
      \<lparr>storage = Map.empty, diaryEntries = [], diaryList = [],
       effects = [Console_warn ''Unable to parse diary entries, resetting storage.'']\<rparr>)
   \<and> loadDiaryEntries reference_platform
     \<lparr>storage = Map.empty, diaryEntries = [], diaryList = [],
      effects = [Console_warn ''Unable to parse diary entries, resetting storage.'']\<rparr> =
     (JArr [],
      \<lparr>storage = Map.empty, diaryEntries = [], diaryList = [],
       effects = [Console_warn ''Unable to parse diary entries, resetting storage.'']\<rparr>)"
proof -
  let ?s = "\<lparr>storage = [diaryStorageKey \<mapsto> ''{broken''], diaryEntries = [], diaryList = [],
             effects = []\<rparr>"
  let ?t = "\<lparr>storage = Map.empty, diaryEntries = [], diaryList = [],
      effects = [Console_warn ''Unable to parse diary entries, resetting storage.'']\<rparr>"
  have h: "storage ?s diaryStorageKey = Some ''{broken'' \<and> ''{broken'' \<noteq> []
           \<and> JSON_parse reference_platform ''{broken'' = None"
    by (simp add: reference_parse_examples)
  have g: "storage ?t diaryStorageKey = None \<or> storage ?t diaryStorageKey = Some []"
    by simp
  from load_resets_unparsable_storage [of ?s "''{broken''" reference_platform] h
  have 1: "loadDiaryEntries reference_platform ?s =
        (JArr [],
         ?s\<lparr>storage := (storage ?s)(diaryStorageKey := None),
           effects := effects ?s @
             [Console_warn ''Unable to parse diary entries, resetting storage.'']\<rparr>)"
    by blast
  from load_resets_unparsable_storage [of ?t "''{broken''" reference_platform] g
  have 2: "loadDiaryEntries reference_platform ?t = (JArr [], ?t)"
    by blast
  from 1 2 show ?thesis by simp
qed

text \<open>
  C2 as stated fails on the empty text: it is present and is not JSON, yet loading
  leaves it in the storage and logs nothing.
\<close>

theorem load_keeps_empty_text:
  "JSON_parse reference_platform [] = None
   \<and> fst (loadDiaryEntries reference_platform
        \<lparr>storage = [diaryStorageKey \<mapsto> []], diaryEntries = [], diaryList = [], effects = []\<rparr>) =
       JArr []
   \<and> storage (snd (loadDiaryEntries reference_platform
        \<lparr>storage = [diaryStorageKey \<mapsto> []], diaryEntries = [], diaryList = [], effects = []\<rparr>))
        diaryStorageKey = Some []
   \<and> effects (snd (loadDiaryEntries reference_platform
        \<lparr>storage = [diaryStorageKey \<mapsto> []], diaryEntries = [], diaryList = [], effects = []\<rparr>)) = []"
  by (simp add: reference_parse_examples loadDiaryEntries_def)

subsection \<open>C3: what loading returns\<close>




subsection \<open>C4: rejected submissions\<close>

text \<open>
  C4. A submission whose date is empty or whose text trims to the empty string leaves
  the array, the storage and the list element as they were, and calls
  \<^verbatim>\<open>reportValidity\<close> on the form.
\<close>

theorem rejected_submit_changes_nothing:
  assumes "date = [] \<or> trim entry = []"
  shows "diaryEntries (on_submit P uuid date focus entry s) = diaryEntries s
       \<and> length (diaryEntries (on_submit P uuid date focus entry s)) = length (diaryEntries s)
       \<and> storage (on_submit P uuid date focus entry s) = storage s
       \<and> diaryList (on_submit P uuid date focus entry s) = diaryList s
       \<and> effects (on_submit P uuid date focus entry s) =
           effects s @ [Prevent_default, Report_validity]"
  using assms by (auto simp: on_submit_def Let_def)

theorem rejected_submit_witness:
  "trim [CHR 0x20, CHR 0x09, CHR 0x0A] = []
   \<and> diaryEntries (on_submit reference_platform ''u1'' ''2024-05-01'' ''leash training''
        [CHR 0x20, CHR 0x09, CHR 0x0A] empty_page) = []
   \<and> storage (on_submit reference_platform ''u1'' ''2024-05-01'' ''leash training''
        [CHR 0x20, CHR 0x09, CHR 0x0A] empty_page) diaryStorageKey = None
   \<and> effects (on_submit reference_platform ''u1'' ''2024-05-01'' ''leash training''
        [CHR 0x20, CHR 0x09, CHR 0x0A] empty_page) = [Prevent_default, Report_validity]"
proof -
  have t: "trim [CHR 0x20, CHR 0x09, CHR 0x0A] = []"
    by (simp add: trim_def is_white_space_def)
  then have "''2024-05-01'' = [] \<or> trim [CHR 0x20, CHR 0x09, CHR 0x0A] = []"
    by simp
  from rejected_submit_changes_nothing [OF this, where P = reference_platform and uuid = "''u1''"
      and focus = "''leash training''" and s = empty_page]
  show ?thesis
    using t by (simp add: empty_page_def)
qed

subsection \<open>C5: accepted submissions\<close>

text \<open>
  C5, as amended. A submission with a non-empty date and a text that is non-empty after
  trimming makes the array one longer: its entries are the former ones and the new one,
  which has the submitted date and focus, the submitted text without the white space at
  its ends, and the generated id, and which the storage holds appended at the end. When
  the generated id is not the id of an entry already in the array, the new entry is the
  only one with this id, and ids that were pairwise distinct remain so.
\<close>

theorem accepted_submit_adds_one_entry:
  assumes "date \<noteq> []" and "trim entry \<noteq> []"
  shows "let new = \<lparr>entry_id = uuid, entry_date = date, entry_focus = focus,
                    entry_text = trim entry\<rparr>;
             s' = on_submit P uuid date focus entry s
         in length (diaryEntries s') = length (diaryEntries s) + 1
          \<and> mset (diaryEntries s') = add_mset new (mset (diaryEntries s))
          \<and> storage s' diaryStorageKey =
              Some (JSON_stringify P (entries_json (diaryEntries s @ [new])))
          \<and> (uuid \<notin> entry_id ` set (diaryEntries s) \<longrightarrow>
                length (filter (\<lambda>e. entry_id e = uuid) (diaryEntries s')) = 1
              \<and> (distinct (map entry_id (diaryEntries s)) \<longrightarrow>
                   distinct (map entry_id (diaryEntries s'))))"
proof -
  define new where "new = \<lparr>entry_id = uuid, entry_date = date, entry_focus = focus,
                            entry_text = trim entry\<rparr>"
  define s' where "s' = on_submit P uuid date focus entry s"
  have es: "diaryEntries s' = Array_sort (compareFn P) (diaryEntries s @ [new])"
    unfolding s'_def new_def by (rule on_submit_accepted(1) [OF assms])
  have m: "mset (diaryEntries s') = mset (diaryEntries s @ [new])"
    unfolding es by (rule mset_Array_sort)
  have len: "length (diaryEntries s') = length (diaryEntries s) + 1"
    unfolding es by (simp add: length_Array_sort)
  have st: "storage s' diaryStorageKey =
              Some (JSON_stringify P (entries_json (diaryEntries s @ [new])))"
    unfolding s'_def new_def by (simp add: on_submit_accepted(2) [OF assms])
  have fresh: "length (filter (\<lambda>e. entry_id e = uuid) (diaryEntries s')) = 1
             \<and> (distinct (map entry_id (diaryEntries s)) \<longrightarrow>
                   distinct (map entry_id (diaryEntries s')))"
    if f: "uuid \<notin> entry_id ` set (diaryEntries s)"
  proof -
    have "filter (\<lambda>e. entry_id e = uuid) (diaryEntries s) = []"
      using f by (auto simp: filter_empty_conv)
    then have "length (filter (\<lambda>e. entry_id e = uuid) (diaryEntries s @ [new])) = 1"
      by (simp add: new_def)
    then have one: "length (filter (\<lambda>e. entry_id e = uuid) (diaryEntries s')) = 1"
      using count_ids_mset [OF m] by simp
    have "distinct (map entry_id (diaryEntries s @ [new]))"
      if "distinct (map entry_id (diaryEntries s))"
      using that f by (simp add: new_def)
    then have "distinct (map entry_id (diaryEntries s)) \<longrightarrow>
               distinct (map entry_id (diaryEntries s'))"
      using distinct_ids_mset [OF m] by simp
    with one show ?thesis by simp
  qed
  from len m st fresh show ?thesis
    unfolding Let_def new_def [symmetric] s'_def [symmetric] by simp
qed

theorem accepted_submit_witness:
  "trim ''  Walked nicely  '' = ''Walked nicely''
   \<and> diaryEntries (on_submit reference_platform ''123e4567-e89b-42d3-a456-426614174000''
      ''2024-05-01'' ''leash training'' ''  Walked nicely  '' empty_page) =
     [\<lparr>entry_id = ''123e4567-e89b-42d3-a456-426614174000'', entry_date = ''2024-05-01'',
       entry_focus = ''leash training'', entry_text = ''Walked nicely''\<rparr>]
   \<and> length (diaryEntries (on_submit reference_platform ''123e4567-e89b-42d3-a456-426614174000''
      ''2024-05-01'' ''leash training'' ''  Walked nicely  '' empty_page)) = 1
   \<and> storage (on_submit reference_platform ''123e4567-e89b-42d3-a456-426614174000''
      ''2024-05-01'' ''leash training'' ''  Walked nicely  '' empty_page) diaryStorageKey =
     Some (json_stringify (entries_json
       [\<lparr>entry_id = ''123e4567-e89b-42d3-a456-426614174000'', entry_date = ''2024-05-01'',
         entry_focus = ''leash training'', entry_text = ''Walked nicely''\<rparr>]))
   \<and> distinct (map entry_id (diaryEntries (on_submit reference_platform
      ''123e4567-e89b-42d3-a456-426614174000'' ''2024-05-01'' ''leash training''
      ''  Walked nicely  '' empty_page)))"
proof -
  let ?new = "\<lparr>entry_id = ''123e4567-e89b-42d3-a456-426614174000'', entry_date = ''2024-05-01'',
       entry_focus = ''leash training'', entry_text = ''Walked nicely''\<rparr>"
  let ?s' = "on_submit reference_platform ''123e4567-e89b-42d3-a456-426614174000''
      ''2024-05-01'' ''leash training'' ''  Walked nicely  '' empty_page"
  have d: "''2024-05-01'' \<noteq> []" by simp
  have t: "trim ''  Walked nicely  '' \<noteq> []"
    by (simp add: trim_examples)
  have f: "''123e4567-e89b-42d3-a456-426614174000'' \<notin> entry_id ` set (diaryEntries empty_page)"
    by (simp add: empty_page_def)
  have n: "distinct (map entry_id (diaryEntries empty_page))"
    by (simp add: empty_page_def)
  from accepted_submit_adds_one_entry [OF d t, where P = reference_platform
      and uuid = "''123e4567-e89b-42d3-a456-426614174000''" and focus = "''leash training''"
      and s = empty_page]
  have r: "length (diaryEntries ?s') = length (diaryEntries empty_page) + 1"
      "mset (diaryEntries ?s') = add_mset ?new (mset (diaryEntries empty_page))"
      "storage ?s' diaryStorageKey =
         Some (JSON_stringify reference_platform (entries_json (diaryEntries empty_page @ [?new])))"
      "distinct (map entry_id (diaryEntries ?s'))"
    using f n by (simp_all add: Let_def trim_examples)
  from r(2) have "mset (diaryEntries ?s') = mset [?new]"
    by (simp add: empty_page_def)
  then have e: "diaryEntries ?s' = [?new]"
    by (simp only: mset_single_iff_right mset.simps) (metis mset_single_iff_right)
  show ?thesis
    using r(1,3,4) e
    by (simp add: trim_examples empty_page_def reference_codec del: json_stringify.simps)
qed

text \<open>
  C5 as stated fails when the submitted text has white space at its ends: the entry
  holds the text without it, which is not the text that was submitted.
\<close>

theorem accepted_submit_trims_text:
  "map entry_text (diaryEntries (on_submit reference_platform ''u1'' ''2024-05-01''
      ''leash training'' ''  Walked nicely  '' empty_page)) = [''Walked nicely'']
   \<and> ''Walked nicely'' \<noteq> ''  Walked nicely  ''"
proof -
  have d: "''2024-05-01'' \<noteq> []" by simp
  have t: "trim ''  Walked nicely  '' \<noteq> []"
    by (simp add: trim_examples)
  show ?thesis
    by (simp add: on_submit_accepted(1) [OF d t] trim_examples empty_page_def Array_sort_def)
qed

subsection \<open>C6: removing an entry\<close>

text \<open>
  C6. A click that is not on a Remove button, or on one whose id no entry of the array
  has, changes nothing. A click on the Remove button of an id that the array has
  removes the first entry with this id and no other, writes the array without it to the
  storage, and renders it: the list element shows the array as it then is, entry by
  entry, or the placeholder when it is empty. When every date that remains is one that
  \<^verbatim>\<open>new Date\<close> can read, the array is left in descending order of date, as the stable
  sort of the array without the entry.
\<close>

theorem remove_by_id:
  "on_list_click P None s = s
   \<and> (i \<notin> entry_id ` set (diaryEntries s) \<longrightarrow> on_list_click P (Some i) s = s)
   \<and> (i \<in> entry_id ` set (diaryEntries s) \<longrightarrow>
        (\<exists>k < length (diaryEntries s).
            entry_id (diaryEntries s ! k) = i
          \<and> (\<forall>j < k. entry_id (diaryEntries s ! j) \<noteq> i)
          \<and> mset (diaryEntries (on_list_click P (Some i) s)) =
              mset (diaryEntries s) - {#diaryEntries s ! k#}
          \<and> storage (on_list_click P (Some i) s) =
              (storage s)(diaryStorageKey \<mapsto>
                 JSON_stringify P (entries_json (splice1 k (diaryEntries s))))
          \<and> diaryList (on_list_click P (Some i) s) =
              (if diaryEntries (on_list_click P (Some i) s) = [] then [Diary_empty empty_message]
               else map (entry_li P) (diaryEntries (on_list_click P (Some i) s)))
          \<and> ((\<forall>e \<in> set (splice1 k (diaryEntries s)). Date_time P (entry_date e) \<noteq> None) \<longrightarrow>
                sorted_wrt (not_earlier P) (diaryEntries (on_list_click P (Some i) s))
              \<and> diaryEntries (on_list_click P (Some i) s) =
                  Array_sort (compareFn P) (splice1 k (diaryEntries s)))))"
proof (intro conjI impI)
  show "on_list_click P None s = s"
    by (simp add: on_list_click_def)
next
  assume "i \<notin> entry_id ` set (diaryEntries s)"
  then have "findIndex (\<lambda>e. entry_id e = i) (diaryEntries s) = None"
    by (auto simp: findIndex_None)
  then show "on_list_click P (Some i) s = s"
    by (simp add: on_list_click_def)
next
  let ?s' = "on_list_click P (Some i) s"
  assume "i \<in> entry_id ` set (diaryEntries s)"
  then have "findIndex (\<lambda>e. entry_id e = i) (diaryEntries s) \<noteq> None"
    by (auto simp: findIndex_None)
  then obtain k where k: "findIndex (\<lambda>e. entry_id e = i) (diaryEntries s) = Some k"
    by auto
  from findIndex_Some [OF k]
  have p: "k < length (diaryEntries s)" "entry_id (diaryEntries s ! k) = i"
      "\<forall>j < k. entry_id (diaryEntries s ! j) \<noteq> i"
    by auto
  have es: "diaryEntries ?s' = Array_sort (compareFn P) (splice1 k (diaryEntries s))"
    by (rule on_list_click_found(1) [OF k])
  have m: "mset (diaryEntries ?s') = mset (diaryEntries s) - {#diaryEntries s ! k#}"
    by (simp add: es mset_Array_sort mset_splice1 [OF p(1)])
  have st: "storage ?s' =
      (storage s)(diaryStorageKey \<mapsto> JSON_stringify P (entries_json (splice1 k (diaryEntries s))))"
    by (rule on_list_click_found(2) [OF k])
  have li: "diaryList ?s' =
      (if diaryEntries ?s' = [] then [Diary_empty empty_message]
       else map (entry_li P) (diaryEntries ?s'))"
    by (simp add: es on_list_click_found(3) [OF k] snd_renderDiary Array_sort_Nil)
  have so: "sorted_wrt (not_earlier P) (diaryEntries ?s')"
    if "\<forall>e \<in> set (splice1 k (diaryEntries s)). Date_time P (entry_date e) \<noteq> None"
    unfolding es using that by (rule sorted_Array_sort)
  from p m st li so es
  show "\<exists>k < length (diaryEntries s).
            entry_id (diaryEntries s ! k) = i
          \<and> (\<forall>j < k. entry_id (diaryEntries s ! j) \<noteq> i)
          \<and> mset (diaryEntries ?s') = mset (diaryEntries s) - {#diaryEntries s ! k#}
          \<and> storage ?s' =
              (storage s)(diaryStorageKey \<mapsto>
                 JSON_stringify P (entries_json (splice1 k (diaryEntries s))))
          \<and> diaryList ?s' =
              (if diaryEntries ?s' = [] then [Diary_empty empty_message]
               else map (entry_li P) (diaryEntries ?s'))
          \<and> ((\<forall>e \<in> set (splice1 k (diaryEntries s)). Date_time P (entry_date e) \<noteq> None) \<longrightarrow>
                sorted_wrt (not_earlier P) (diaryEntries ?s')
              \<and> diaryEntries ?s' = Array_sort (compareFn P) (splice1 k (diaryEntries s)))"
    by blast
qed

theorem remove_by_id_witness:
  "on_list_click reference_platform (Some ''u3'') two_entries_page = two_entries_page
   \<and> diaryEntries (on_list_click reference_platform (Some ''u1'') two_entries_page) =
       [\<lparr>entry_id = ''u2'', entry_date = ''2024-03-05'', entry_focus = ''leash'',
         entry_text = ''Walked nicely''\<rparr>]
   \<and> storage (on_list_click reference_platform (Some ''u1'') two_entries_page) diaryStorageKey =
       Some (json_stringify (entries_json
         [\<lparr>entry_id = ''u2'', entry_date = ''2024-03-05'', entry_focus = ''leash'',
           entry_text = ''Walked nicely''\<rparr>]))
   \<and> diaryList (on_list_click reference_platform (Some ''u1'') two_entries_page) =
       [Diary_entry ''Mar 5, 2024'' ''leash'' ''Walked nicely'' ''u2'']"
proof -
  let ?u2 = "\<lparr>entry_id = ''u2'', entry_date = ''2024-03-05'', entry_focus = ''leash'', entry_text = ''Walked nicely''\<rparr>"
  let ?s' = "on_list_click reference_platform (Some ''u1'') two_entries_page"
  have absent: "''u3'' \<notin> entry_id ` set (diaryEntries two_entries_page)"
    by (simp add: two_entries_page(1))
  have present: "''u1'' \<in> entry_id ` set (diaryEntries two_entries_page)"
    by (simp add: two_entries_page(1))
  from remove_by_id [of reference_platform two_entries_page "''u3''"] absent
  have a: "on_list_click reference_platform (Some ''u3'') two_entries_page = two_entries_page"
    by blast
  from remove_by_id [of reference_platform two_entries_page "''u1''"] present
  obtain k where k: "k < length (diaryEntries two_entries_page)"
      "entry_id (diaryEntries two_entries_page ! k) = ''u1''"
      "storage ?s' =
         (storage two_entries_page)(diaryStorageKey \<mapsto>
            JSON_stringify reference_platform
              (entries_json (splice1 k (diaryEntries two_entries_page))))"
      "diaryList ?s' =
         (if diaryEntries ?s' = [] then [Diary_empty empty_message]
          else map (entry_li reference_platform) (diaryEntries ?s'))"
      "(\<forall>e \<in> set (splice1 k (diaryEntries two_entries_page)).
           Date_time reference_platform (entry_date e) \<noteq> None) \<longrightarrow>
         sorted_wrt (not_earlier reference_platform) (diaryEntries ?s')
       \<and> diaryEntries ?s' =
           Array_sort (compareFn reference_platform) (splice1 k (diaryEntries two_entries_page))"
    by blast
  from k(1,2) have "k = 1"
    by (cases k) (simp_all add: two_entries_page(1))
  then have sp: "splice1 k (diaryEntries two_entries_page) = [?u2]"
    by (simp add: splice1_def two_entries_page(1))
  have v: "\<forall>e \<in> set [?u2]. Date_time reference_platform (entry_date e) \<noteq> None"
    by (simp add: reference_dates)
  from k(5) v have e: "diaryEntries ?s' = [?u2]"
    unfolding sp by (simp add: Array_sort_def)
  have l: "diaryList ?s' = [Diary_entry ''Mar 5, 2024'' ''leash'' ''Walked nicely'' ''u2'']"
    using k(4) unfolding e
    by (simp add: entry_li_def reference_labels replace_newlines_def)
  have s: "storage ?s' diaryStorageKey = Some (json_stringify (entries_json [?u2]))"
    using k(3) unfolding sp by (simp add: reference_codec del: json_stringify.simps)
  show ?thesis
    by (intro conjI) (rule a e s l)+
qed

subsection \<open>C7: clearing\<close>

text \<open>
  C7. When the user declines the confirmation, the click on the clear button changes
  nothing. When the user confirms, the array becomes empty, the storage holds the
  serialisation of the empty array under the diary key, and the list element shows the
  placeholder alone.
\<close>

theorem clear_declined_or_confirmed:
  "on_clear P False s = s
   \<and> diaryEntries (on_clear P True s) = []
   \<and> storage (on_clear P True s) =
       (storage s)(diaryStorageKey \<mapsto> JSON_stringify P (entries_json []))
   \<and> diaryList (on_clear P True s) = [Diary_empty empty_message]
   \<and> effects (on_clear P True s) = effects s"
  by (simp add: on_clear_def Let_def render_simps save_simps snd_renderDiary Array_sort_def)

theorem clear_witness:
  "diaryEntries (on_clear reference_platform True
      (on_submit reference_platform ''u1'' ''2024-05-01'' ''leash training'' ''Walked nicely''
         empty_page)) = []
   \<and> storage (on_clear reference_platform True
      (on_submit reference_platform ''u1'' ''2024-05-01'' ''leash training'' ''Walked nicely''
         empty_page)) diaryStorageKey = Some ''[]''
   \<and> diaryList (on_clear reference_platform True
      (on_submit reference_platform ''u1'' ''2024-05-01'' ''leash training'' ''Walked nicely''
         empty_page)) = [Diary_empty ''No entries yet. Start recording today's milestones!'']"
  using clear_declined_or_confirmed [of reference_platform
      "on_submit reference_platform ''u1'' ''2024-05-01'' ''leash training'' ''Walked nicely''
         empty_page"]
  by (simp add: reference_platform_def entries_json_def empty_message_def)

subsection \<open>C8: the order of the rendered list\<close>

text \<open>
  C8, as amended. For a non-empty array whose dates are all dates that \<^verbatim>\<open>new Date\<close> can
  read, the list element shows one item for each entry of the array, in descending
  order of date; the items are those of the array as \<^verbatim>\<open>sort\<close> leaves it.
\<close>

theorem render_sorts_descending:
  assumes "entries \<noteq> []" and "\<forall>e \<in> set entries. Date_time P (entry_date e) \<noteq> None"
  shows "snd (renderDiary P entries) = map (entry_li P) (fst (renderDiary P entries))
       \<and> sorted_wrt (not_earlier P) (fst (renderDiary P entries))
       \<and> mset (fst (renderDiary P entries)) = mset entries"
  using assms
  by (simp add: fst_renderDiary snd_renderDiary sorted_Array_sort mset_Array_sort)

theorem render_sorts_descending_witness:
  "snd (renderDiary reference_platform
      [\<lparr>entry_id = ''a'', entry_date = ''2024-01-01'', entry_focus = ''sit'', entry_text = ''Good''\<rparr>,
       \<lparr>entry_id = ''b'', entry_date = ''2024-03-05'', entry_focus = ''leash'', entry_text = ''Walked nicely''\<rparr>,
       \<lparr>entry_id = ''c'', entry_date = ''2024-02-10'', entry_focus = ''stay'', entry_text = ''Held it''\<rparr>]) =
     [Diary_entry ''Mar 5, 2024'' ''leash'' ''Walked nicely'' ''b'',
      Diary_entry ''Feb 10, 2024'' ''stay'' ''Held it'' ''c'',
      Diary_entry ''Jan 1, 2024'' ''sit'' ''Good'' ''a'']
   \<and> map entry_date (fst (renderDiary reference_platform
      [\<lparr>entry_id = ''a'', entry_date = ''2024-01-01'', entry_focus = ''sit'', entry_text = ''Good''\<rparr>,
       \<lparr>entry_id = ''b'', entry_date = ''2024-03-05'', entry_focus = ''leash'', entry_text = ''Walked nicely''\<rparr>,
       \<lparr>entry_id = ''c'', entry_date = ''2024-02-10'', entry_focus = ''stay'', entry_text = ''Held it''\<rparr>])) =
     [''2024-03-05'', ''2024-02-10'', ''2024-01-01'']"
proof -
  let ?es = "[\<lparr>entry_id = ''a'', entry_date = ''2024-01-01'', entry_focus = ''sit'', entry_text = ''Good''\<rparr>,
       \<lparr>entry_id = ''b'', entry_date = ''2024-03-05'', entry_focus = ''leash'', entry_text = ''Walked nicely''\<rparr>,
       \<lparr>entry_id = ''c'', entry_date = ''2024-02-10'', entry_focus = ''stay'', entry_text = ''Held it''\<rparr>]"
  have n: "?es \<noteq> []" by simp
  have v: "\<forall>e \<in> set ?es. Date_time reference_platform (entry_date e) \<noteq> None"
    by (simp add: reference_dates)
  have f: "fst (renderDiary reference_platform ?es) =
     [\<lparr>entry_id = ''b'', entry_date = ''2024-03-05'', entry_focus = ''leash'', entry_text = ''Walked nicely''\<rparr>,
      \<lparr>entry_id = ''c'', entry_date = ''2024-02-10'', entry_focus = ''stay'', entry_text = ''Held it''\<rparr>,
      \<lparr>entry_id = ''a'', entry_date = ''2024-01-01'', entry_focus = ''sit'', entry_text = ''Good''\<rparr>]"
    by (simp add: fst_renderDiary Array_sort_def reference_compare)
  from render_sorts_descending [OF n v] f show ?thesis
    by (simp add: entry_li_def reference_labels replace_newlines_def)
qed

text \<open>
  C8 as stated fails when a date is not one that \<^verbatim>\<open>new Date\<close> can read: every comparison
  with such an entry yields NaN, and the entry of 2024-01-01 stays in front of the
  entry of 2024-03-05.
\<close>

theorem render_unparsable_date_out_of_order:
  "map entry_date (fst (renderDiary reference_platform
      [\<lparr>entry_id = ''a'', entry_date = ''2024-01-01'', entry_focus = ''sit'', entry_text = ''Good''\<rparr>,
       \<lparr>entry_id = ''b'', entry_date = ''soon'', entry_focus = ''stay'', entry_text = ''Held it''\<rparr>,
       \<lparr>entry_id = ''c'', entry_date = ''2024-03-05'', entry_focus = ''leash'', entry_text = ''Walked nicely''\<rparr>])) =
     [''2024-01-01'', ''soon'', ''2024-03-05'']
   \<and> map entry_li_id (snd (renderDiary reference_platform
      [\<lparr>entry_id = ''a'', entry_date = ''2024-01-01'', entry_focus = ''sit'', entry_text = ''Good''\<rparr>,
       \<lparr>entry_id = ''b'', entry_date = ''soon'', entry_focus = ''stay'', entry_text = ''Held it''\<rparr>,
       \<lparr>entry_id = ''c'', entry_date = ''2024-03-05'', entry_focus = ''leash'', entry_text = ''Walked nicely''\<rparr>])) =
     [''a'', ''b'', ''c'']
   \<and> Date_time reference_platform ''2024-01-01'' = Some 1704067200000
   \<and> Date_time reference_platform ''2024-03-05'' = Some 1709596800000
   \<and> \<not> sorted_wrt (not_earlier reference_platform) (fst (renderDiary reference_platform
      [\<lparr>entry_id = ''a'', entry_date = ''2024-01-01'', entry_focus = ''sit'', entry_text = ''Good''\<rparr>,
       \<lparr>entry_id = ''b'', entry_date = ''soon'', entry_focus = ''stay'', entry_text = ''Held it''\<rparr>,
       \<lparr>entry_id = ''c'', entry_date = ''2024-03-05'', entry_focus = ''leash'', entry_text = ''Walked nicely''\<rparr>]))"
  by (simp add: renderDiary_def Array_sort_def compareFn_def reference_dates
        reference_unparsable_date entry_li_def not_earlier_def)

subsection \<open>C9: what rendering changes\<close>

text \<open>
  C9, as amended. Rendering writes nothing to the storage and keeps the entries of the
  array, each as often as before, but it can change their order. When every date of the
  array is one that \<^verbatim>\<open>new Date\<close> can read, it leaves the array in descending order of date,
  as the stable sort of the former order, and in the former order when this was already
  descending.
\<close>

theorem render_keeps_entries_and_storage:
  "mset (diaryEntries (render P s)) = mset (diaryEntries s)
   \<and> storage (render P s) = storage s
   \<and> effects (render P s) = effects s
   \<and> ((\<forall>e \<in> set (diaryEntries s). Date_time P (entry_date e) \<noteq> None) \<longrightarrow>
          sorted_wrt (not_earlier P) (diaryEntries (render P s))
        \<and> diaryEntries (render P s) = Array_sort (compareFn P) (diaryEntries s)
        \<and> (sorted_wrt (not_earlier P) (diaryEntries s) \<longrightarrow>
              diaryEntries (render P s) = diaryEntries s))"
proof -
  have "mset (diaryEntries (render P s)) = mset (diaryEntries s)"
    by (simp add: render_simps mset_Array_sort)
  moreover have "storage (render P s) = storage s" "effects (render P s) = effects s"
    by (simp_all add: render_simps)
  moreover have "sorted_wrt (not_earlier P) (diaryEntries (render P s))"
    if "\<forall>e \<in> set (diaryEntries s). Date_time P (entry_date e) \<noteq> None"
    using that by (rule render_valid_dates)
  moreover have "diaryEntries (render P s) = Array_sort (compareFn P) (diaryEntries s)"
    by (simp add: render_simps)
  moreover have "diaryEntries (render P s) = diaryEntries s"
    if "sorted_wrt (not_earlier P) (diaryEntries s)"
    using that by (simp add: render_simps Array_sort_sorted)
  ultimately show ?thesis
    by blast
qed

theorem render_in_order_witness:
  "Date_time reference_platform ''2024-03-05'' = Some 1709596800000
   \<and> Date_time reference_platform ''2024-01-01'' = Some 1704067200000
   \<and> sorted_wrt (not_earlier reference_platform)
     [\<lparr>entry_id = ''u2'', entry_date = ''2024-03-05'', entry_focus = ''leash'', entry_text = ''Walked nicely''\<rparr>,
      \<lparr>entry_id = ''u1'', entry_date = ''2024-01-01'', entry_focus = ''sit'', entry_text = ''Good''\<rparr>]
   \<and> diaryEntries (render reference_platform
        \<lparr>storage = Map.empty,
         diaryEntries =
           [\<lparr>entry_id = ''u2'', entry_date = ''2024-03-05'', entry_focus = ''leash'', entry_text = ''Walked nicely''\<rparr>,
            \<lparr>entry_id = ''u1'', entry_date = ''2024-01-01'', entry_focus = ''sit'', entry_text = ''Good''\<rparr>],
         diaryList = [], effects = []\<rparr>) =
       [\<lparr>entry_id = ''u2'', entry_date = ''2024-03-05'', entry_focus = ''leash'', entry_text = ''Walked nicely''\<rparr>,
        \<lparr>entry_id = ''u1'', entry_date = ''2024-01-01'', entry_focus = ''sit'', entry_text = ''Good''\<rparr>]
   \<and> sorted_wrt (not_earlier reference_platform) (diaryEntries (render reference_platform
        \<lparr>storage = Map.empty,
         diaryEntries =
           [\<lparr>entry_id = ''u2'', entry_date = ''2024-03-05'', entry_focus = ''leash'', entry_text = ''Walked nicely''\<rparr>,
            \<lparr>entry_id = ''u1'', entry_date = ''2024-01-01'', entry_focus = ''sit'', entry_text = ''Good''\<rparr>],
         diaryList = [], effects = []\<rparr>))"
proof -
  let ?s = "\<lparr>storage = Map.empty,
         diaryEntries =
           [\<lparr>entry_id = ''u2'', entry_date = ''2024-03-05'', entry_focus = ''leash'', entry_text = ''Walked nicely''\<rparr>,
            \<lparr>entry_id = ''u1'', entry_date = ''2024-01-01'', entry_focus = ''sit'', entry_text = ''Good''\<rparr>],
         diaryList = [], effects = []\<rparr>"
  have v: "\<forall>e \<in> set (diaryEntries ?s). Date_time reference_platform (entry_date e) \<noteq> None"
    by (simp add: reference_dates)
  have a: "sorted_wrt (not_earlier reference_platform) (diaryEntries ?s)"
    by (simp add: not_earlier_def reference_dates)
  from render_keeps_entries_and_storage [of reference_platform ?s] v
  have r: "sorted_wrt (not_earlier reference_platform) (diaryEntries (render reference_platform ?s))"
      "sorted_wrt (not_earlier reference_platform) (diaryEntries ?s) \<longrightarrow>
        diaryEntries (render reference_platform ?s) = diaryEntries ?s"
    by blast+
  from r(2) a have "diaryEntries (render reference_platform ?s) = diaryEntries ?s"
    by blast
  with a r(1) show ?thesis
    by (simp add: reference_dates)
qed

text \<open>
  C9 as stated fails: rendering the array of an entry of 2024-01-01 followed by an
  entry of 2024-03-05 leaves the array with the two entries exchanged.
\<close>

theorem render_reorders_array:
  "diaryEntries (render reference_platform
      \<lparr>storage = Map.empty,
       diaryEntries =
         [\<lparr>entry_id = ''u1'', entry_date = ''2024-01-01'', entry_focus = ''sit'', entry_text = ''Good''\<rparr>,
          \<lparr>entry_id = ''u2'', entry_date = ''2024-03-05'', entry_focus = ''leash'', entry_text = ''Walked nicely''\<rparr>],
       diaryList = [], effects = []\<rparr>) =
     [\<lparr>entry_id = ''u2'', entry_date = ''2024-03-05'', entry_focus = ''leash'', entry_text = ''Walked nicely''\<rparr>,
      \<lparr>entry_id = ''u1'', entry_date = ''2024-01-01'', entry_focus = ''sit'', entry_text = ''Good''\<rparr>]
   \<and> diaryEntries (render reference_platform
      \<lparr>storage = Map.empty,
       diaryEntries =
         [\<lparr>entry_id = ''u1'', entry_date = ''2024-01-01'', entry_focus = ''sit'', entry_text = ''Good''\<rparr>,
          \<lparr>entry_id = ''u2'', entry_date = ''2024-03-05'', entry_focus = ''leash'', entry_text = ''Walked nicely''\<rparr>],
       diaryList = [], effects = []\<rparr>) \<noteq>
     [\<lparr>entry_id = ''u1'', entry_date = ''2024-01-01'', entry_focus = ''sit'', entry_text = ''Good''\<rparr>,
      \<lparr>entry_id = ''u2'', entry_date = ''2024-03-05'', entry_focus = ''leash'', entry_text = ''Walked nicely''\<rparr>]"
  by (simp add: render_simps Array_sort_def reference_compare)

subsection \<open>C10: the stored text\<close>

text \<open>
  C10. The entry that an accepted submission adds holds the trimmed text of the entry
  field, and this text neither begins nor ends with a white space character.
\<close>

theorem accepted_submit_stores_trimmed_text:
  assumes "date \<noteq> []" and "trim entry \<noteq> []"
  shows "set (diaryEntries (on_submit P uuid date focus entry s)) =
           insert \<lparr>entry_id = uuid, entry_date = date, entry_focus = focus,
                   entry_text = trim entry\<rparr> (set (diaryEntries s))
       \<and> \<not> is_white_space (hd (trim entry))
       \<and> \<not> is_white_space (last (trim entry))"
  using trim_no_edge_space [OF assms(2)]
  by (simp add: on_submit_accepted(1) [OF assms] set_Array_sort)

theorem trimmed_text_witness:
  "trim ''  Walked nicely  '' = ''Walked nicely''
   \<and> set (diaryEntries (on_submit reference_platform ''u1'' ''2024-05-01'' ''leash training''
        ''  Walked nicely  '' empty_page)) =
       {\<lparr>entry_id = ''u1'', entry_date = ''2024-05-01'', entry_focus = ''leash training'',
         entry_text = ''Walked nicely''\<rparr>}"
proof -
  have d: "''2024-05-01'' \<noteq> []" by simp
  have t: "trim ''  Walked nicely  '' \<noteq> []"
    by (simp add: trim_examples)
  from accepted_submit_stores_trimmed_text [OF d t, where P = reference_platform
      and uuid = "''u1''" and focus = "''leash training''" and s = empty_page]
  show ?thesis
    by (simp add: trim_examples empty_page_def)
qed

end
